theory Spec2Isabelle
  imports Complex_Main
begin

section \<open>Tables of the data-processing utilities\<close>

text \<open>
  The module \<^verbatim>\<open>utils/data_processing.py\<close> holds four functions over pandas tables:
  \<^verbatim>\<open>feature_engineering\<close>, \<^verbatim>\<open>data_preprocessing\<close>, \<^verbatim>\<open>remove_extreme_values\<close> and
  \<^verbatim>\<open>split_data\<close>. This theory embeds them, together with the pandas operations they
  call, and settles what the specification says about them.

  How numbers are modelled, stated once:
  \<^item> a cell is a binary64 value: missing (NaN), one of the two infinities, or a finite
    number. An arithmetic operation on finite numbers gives the exact result rounded to
    binary64, or an infinity when the rounded result is beyond the largest binary64
    number. The rounding function is a parameter of the model (\<open>rnd\<close>, in the record of
    the numeric library): no statement below depends on how a number is rounded, unless it
    says so. The sign of zero is not modelled. The special cases follow IEEE 754 as
    numpy applies it: \<open>x / 0\<close> is an infinity for \<open>x \<noteq> 0\<close> and NaN for \<open>x = 0\<close>, NaN
    propagates through arithmetic, and every comparison with NaN is false;
  \<^item> a column carries its dtype, integer (int64) or floating (float64). The cells of an
    integer column are whole numbers; the difference, sum and product of two integer
    columns are computed in int64 and wrap around, and an integer column that meets a
    floating column or a floating number is first converted to float64;
  \<^item> a floating sum over a column (inside \<^verbatim>\<open>mean\<close> and \<^verbatim>\<open>std\<close>) adds in an order that
    the library chooses, and the rounded result depends on that order: the summation is a
    parameter of the model too (\<open>series_sum\<close>);
  \<^item> tables hold numeric columns only, with names that are pairwise different where
    a name is looked up (the first column of that name is the one found).
\<close>

subsection \<open>Cells\<close>

datatype cell = NaN | NInf | PInf | Fin real

text \<open>
  What the source leaves to numpy and pandas and the machine format decides: the rounding
  of a real number to binary64 precision, the sum of the cells of a floating array, and
  Python's \<^verbatim>\<open>repr\<close> of a float that is no whole number.
\<close>

record lib =
  rnd :: "real \<Rightarrow> real"
  series_sum :: "cell list \<Rightarrow> cell"
  float_repr :: "real \<Rightarrow> string"

text \<open>The largest finite binary64 number.\<close>

definition max_double :: real where
  "max_double = (2 - 1 / 2 ^ 52) * 2 ^ 1023"

text \<open>
  The binary64 value of an exact result: zero stays zero, a result whose rounding exceeds
  the largest finite number becomes the infinity of its sign, any other result is rounded.
\<close>

definition fl :: "(real \<Rightarrow> real) \<Rightarrow> real \<Rightarrow> cell" where
  "fl r v =
     (if v = 0 then Fin 0
      else if max_double < \<bar>r v\<bar> then (if 0 < v then PInf else NInf)
      else Fin (r v))"

fun cell_neg :: "cell \<Rightarrow> cell" where
  "cell_neg NaN = NaN"
| "cell_neg NInf = PInf"
| "cell_neg PInf = NInf"
| "cell_neg (Fin x) = Fin (- x)"

fun cell_add :: "(real \<Rightarrow> real) \<Rightarrow> cell \<Rightarrow> cell \<Rightarrow> cell" where
  "cell_add r NaN _ = NaN"
| "cell_add r _ NaN = NaN"
| "cell_add r PInf NInf = NaN"
| "cell_add r NInf PInf = NaN"
| "cell_add r PInf _ = PInf"
| "cell_add r _ PInf = PInf"
| "cell_add r NInf _ = NInf"
| "cell_add r _ NInf = NInf"
| "cell_add r (Fin x) (Fin y) = fl r (x + y)"

definition cell_sub :: "(real \<Rightarrow> real) \<Rightarrow> cell \<Rightarrow> cell \<Rightarrow> cell" where
  "cell_sub r a b = cell_add r a (cell_neg b)"

text \<open>The sign of a cell that is not NaN: \<open>-1\<close>, \<open>0\<close> or \<open>1\<close>.\<close>

fun cell_sgn :: "cell \<Rightarrow> real" where
  "cell_sgn NaN = 0"
| "cell_sgn NInf = - 1"
| "cell_sgn PInf = 1"
| "cell_sgn (Fin x) = sgn x"

definition signed_inf :: "real \<Rightarrow> cell" where
  "signed_inf r = (if r = 0 then NaN else if 0 < r then PInf else NInf)"

fun cell_mul :: "(real \<Rightarrow> real) \<Rightarrow> cell \<Rightarrow> cell \<Rightarrow> cell" where
  "cell_mul r NaN _ = NaN"
| "cell_mul r _ NaN = NaN"
| "cell_mul r (Fin x) (Fin y) = fl r (x * y)"
| "cell_mul r a b = signed_inf (cell_sgn a * cell_sgn b)"

fun is_inf :: "cell \<Rightarrow> bool" where
  "is_inf NInf = True"
| "is_inf PInf = True"
| "is_inf _ = False"

text \<open>
  True division as numpy does it on float64: a finite number over zero is an infinity
  with the sign of the numerator, zero over zero is NaN, an infinity over an infinity
  is NaN, a finite number over an infinity is zero.
\<close>

fun cell_div :: "(real \<Rightarrow> real) \<Rightarrow> cell \<Rightarrow> cell \<Rightarrow> cell" where
  "cell_div r NaN _ = NaN"
| "cell_div r _ NaN = NaN"
| "cell_div r (Fin x) (Fin y) = (if y = 0 then signed_inf x else fl r (x / y))"
| "cell_div r (Fin x) _ = Fin 0"
| "cell_div r a (Fin y) = (if y < 0 then cell_neg a else a)"
| "cell_div r _ _ = NaN"

fun cell_le :: "cell \<Rightarrow> cell \<Rightarrow> bool" where
  "cell_le NaN _ = False"
| "cell_le _ NaN = False"
| "cell_le NInf _ = True"
| "cell_le _ PInf = True"
| "cell_le (Fin x) (Fin y) = (x \<le> y)"
| "cell_le _ _ = False"

definition cell_ge :: "cell \<Rightarrow> cell \<Rightarrow> bool" where
  "cell_ge a b = cell_le b a"

definition cell_lt :: "cell \<Rightarrow> cell \<Rightarrow> bool" where
  "cell_lt a b = (cell_le a b \<and> a \<noteq> b)"

fun cell_sqrt :: "(real \<Rightarrow> real) \<Rightarrow> cell \<Rightarrow> cell" where
  "cell_sqrt r (Fin x) = (if x < 0 then NaN else fl r (sqrt x))"
| "cell_sqrt r PInf = PInf"
| "cell_sqrt r _ = NaN"

definition isnull :: "cell \<Rightarrow> bool" where
  "isnull v = (v = NaN)"

text \<open>\<^verbatim>\<open>fillna(value)\<close> on one cell: only NaN is replaced, an infinity stays.\<close>

definition fillna_cell :: "cell \<Rightarrow> cell \<Rightarrow> cell" where
  "fillna_cell d v = (if isnull v then d else v)"

subsection \<open>Integers\<close>

text \<open>An int64 result wraps around into \<open>[-2\<^sup>6\<^sup>3, 2\<^sup>6\<^sup>3)\<close>.\<close>

definition wrap64 :: "int \<Rightarrow> int" where
  "wrap64 k = (k + 2 ^ 63) mod 2 ^ 64 - 2 ^ 63"

text \<open>An operation on two cells of integer columns.\<close>

fun int_op :: "(int \<Rightarrow> int \<Rightarrow> int) \<Rightarrow> cell \<Rightarrow> cell \<Rightarrow> cell" where
  "int_op f (Fin x) (Fin y) = Fin (of_int (wrap64 (f \<lfloor>x\<rfloor> \<lfloor>y\<rfloor>)))"
| "int_op f _ _ = NaN"

text \<open>The conversion of a cell of an integer column to float64.\<close>

fun to_float :: "(real \<Rightarrow> real) \<Rightarrow> cell \<Rightarrow> cell" where
  "to_float r (Fin x) = fl r x"
| "to_float r v = v"

subsection \<open>Columns and tables\<close>

datatype dtype = Integer | Floating

datatype column = Column (dtype_of: dtype) (cells: "cell list")

record frame =
  index :: "nat list"
  columns :: "(string \<times> column) list"

datatype error = KeyError string | UndefinedVariableError string

definition nrows :: "frame \<Rightarrow> nat" where
  "nrows F = length (index F)"

definition column_names :: "frame \<Rightarrow> string list" where
  "column_names F = map fst (columns F)"

text \<open>Every column has one cell per row, as in every pandas table.\<close>

definition wf_frame :: "frame \<Rightarrow> bool" where
  "wf_frame F = list_all (\<lambda>(n, c). length (cells c) = nrows F) (columns F)"

text \<open>\<^verbatim>\<open>df[name]\<close>: the column, or KeyError.\<close>

definition getitem :: "frame \<Rightarrow> string \<Rightarrow> error + column" where
  "getitem F n = (case map_of (columns F) n of None \<Rightarrow> Inl (KeyError n) | Some c \<Rightarrow> Inr c)"

text \<open>
  \<^verbatim>\<open>df[name] = series\<close>: an existing column is replaced where it stands, a new one
  is appended after the last column.
\<close>

fun assign :: "string \<Rightarrow> column \<Rightarrow> (string \<times> column) list \<Rightarrow> (string \<times> column) list" where
  "assign n c [] = [(n, c)]"
| "assign n c ((m, d) # ps) = (if m = n then (n, c) # ps else (m, d) # assign n c ps)"

definition setitem :: "frame \<Rightarrow> string \<Rightarrow> column \<Rightarrow> frame" where
  "setitem F n c = F\<lparr>columns := assign n c (columns F)\<rparr>"

text \<open>The cells of a column as float64 values: those of an integer column are converted.\<close>

definition float_cells :: "(real \<Rightarrow> real) \<Rightarrow> column \<Rightarrow> cell list" where
  "float_cells r c = (if dtype_of c = Integer then map (to_float r) (cells c) else cells c)"

text \<open>
  Arithmetic of two columns, cell by cell. Subtraction, addition and multiplication of
  two integer columns are done in int64 and give an integer column; with a floating
  operand both are taken as float64. True division always works on float64.
\<close>

definition col_arith ::
  "(int \<Rightarrow> int \<Rightarrow> int) \<Rightarrow> (cell \<Rightarrow> cell \<Rightarrow> cell) \<Rightarrow> (real \<Rightarrow> real) \<Rightarrow> column \<Rightarrow> column \<Rightarrow> column" where
  "col_arith f g r a b =
     (if dtype_of a = Integer \<and> dtype_of b = Integer
      then Column Integer (map2 (int_op f) (cells a) (cells b))
      else Column Floating (map2 g (float_cells r a) (float_cells r b)))"

definition col_sub :: "lib \<Rightarrow> column \<Rightarrow> column \<Rightarrow> column" where
  "col_sub L a b = col_arith (-) (cell_sub (rnd L)) (rnd L) a b"

definition col_add :: "lib \<Rightarrow> column \<Rightarrow> column \<Rightarrow> column" where
  "col_add L a b = col_arith (+) (cell_add (rnd L)) (rnd L) a b"

definition col_mul :: "lib \<Rightarrow> column \<Rightarrow> column \<Rightarrow> column" where
  "col_mul L a b = col_arith (*) (cell_mul (rnd L)) (rnd L) a b"

definition col_div :: "lib \<Rightarrow> column \<Rightarrow> column \<Rightarrow> column" where
  "col_div L a b =
     Column Floating (map2 (cell_div (rnd L)) (float_cells (rnd L) a) (float_cells (rnd L) b))"

definition fillna :: "cell \<Rightarrow> column \<Rightarrow> column" where
  "fillna d c = Column (dtype_of c) (map (fillna_cell d) (cells c))"

definition fillna_frame :: "cell \<Rightarrow> frame \<Rightarrow> frame" where
  "fillna_frame d F = F\<lparr>columns := map (\<lambda>(n, c). (n, fillna d c)) (columns F)\<rparr>"

text \<open>
  The expressions given to \<^verbatim>\<open>DataFrame.eval\<close>. A name that is no column raises
  UndefinedVariableError; operands are resolved from left to right.
\<close>

datatype expr = Var string | Sub expr expr | Add expr expr | Div expr expr

fun bind_err :: "error + 'a \<Rightarrow> ('a \<Rightarrow> error + 'b) \<Rightarrow> error + 'b" where
  "bind_err (Inl e) f = Inl e"
| "bind_err (Inr v) f = f v"

fun eval_expr :: "lib \<Rightarrow> frame \<Rightarrow> expr \<Rightarrow> error + column" where
  "eval_expr L F (Var n) =
     (case map_of (columns F) n of None \<Rightarrow> Inl (UndefinedVariableError n) | Some c \<Rightarrow> Inr c)"
| "eval_expr L F (Sub a b) =
     bind_err (eval_expr L F a) (\<lambda>x. bind_err (eval_expr L F b) (\<lambda>y. Inr (col_sub L x y)))"
| "eval_expr L F (Add a b) =
     bind_err (eval_expr L F a) (\<lambda>x. bind_err (eval_expr L F b) (\<lambda>y. Inr (col_add L x y)))"
| "eval_expr L F (Div a b) =
     bind_err (eval_expr L F a) (\<lambda>x. bind_err (eval_expr L F b) (\<lambda>y. Inr (col_div L x y)))"

subsection \<open>Table objects\<close>

text \<open>
  A Python name holds a reference to a table object. The store maps references to the
  tables they hold; \<open>fresh\<close> is the next unused reference. A function of the module takes
  the references it is called with and the store, and returns an error or its result with
  the store it leaves behind, so that a write through the caller's reference is visible.
\<close>

record store =
  objs :: "nat \<Rightarrow> frame"
  fresh :: nat

type_synonym 'a prog = "store \<Rightarrow> error + ('a \<times> store)"

definition ret :: "'a \<Rightarrow> 'a prog" where
  "ret v s = Inr (v, s)"

definition bind :: "'a prog \<Rightarrow> ('a \<Rightarrow> 'b prog) \<Rightarrow> 'b prog" where
  "bind m f s = (case m s of Inl e \<Rightarrow> Inl e | Inr (v, s') \<Rightarrow> f v s')"

definition lift :: "error + 'a \<Rightarrow> 'a prog" where
  "lift r s = (case r of Inl e \<Rightarrow> Inl e | Inr v \<Rightarrow> Inr (v, s))"

definition deref :: "nat \<Rightarrow> frame prog" where
  "deref r s = Inr (objs s r, s)"

text \<open>A new table object.\<close>

definition alloc :: "frame \<Rightarrow> nat prog" where
  "alloc F s = Inr (fresh s, s\<lparr>objs := (objs s)(fresh s := F), fresh := Suc (fresh s)\<rparr>)"

text \<open>A write into an existing table object.\<close>

definition modify :: "nat \<Rightarrow> (frame \<Rightarrow> frame) \<Rightarrow> unit prog" where
  "modify r f s = Inr ((), s\<lparr>objs := (objs s)(r := f (objs s r))\<rparr>)"

text \<open>\<^verbatim>\<open>df.copy()\<close>\<close>

definition copy :: "nat \<Rightarrow> nat prog" where
  "copy r = bind (deref r) alloc"

text \<open>\<^verbatim>\<open>df.eval(e)\<close> and \<^verbatim>\<open>df[name]\<close> read the object; \<^verbatim>\<open>df[name] = c\<close> and
  \<^verbatim>\<open>df.fillna(v, inplace=True)\<close> write into it.\<close>

definition df_eval :: "lib \<Rightarrow> nat \<Rightarrow> expr \<Rightarrow> column prog" where
  "df_eval L r e = bind (deref r) (\<lambda>F. lift (eval_expr L F e))"

definition df_getitem :: "nat \<Rightarrow> string \<Rightarrow> column prog" where
  "df_getitem r n = bind (deref r) (\<lambda>F. lift (getitem F n))"

definition df_setitem :: "nat \<Rightarrow> string \<Rightarrow> column \<Rightarrow> unit prog" where
  "df_setitem r n c = modify r (\<lambda>F. setitem F n c)"

definition df_fillna_inplace :: "nat \<Rightarrow> cell \<Rightarrow> unit prog" where
  "df_fillna_inplace r d = modify r (fillna_frame d)"

subsection \<open>Feature engineering\<close>

definition liquidity_expr :: expr where
  "liquidity_expr =
     Div (Sub (Var ''bid_size'') (Var ''ask_size'')) (Add (Var ''bid_size'') (Var ''ask_size''))"

definition matched_expr :: expr where
  "matched_expr =
     Div (Sub (Var ''imbalance_size'') (Var ''matched_size''))
         (Add (Var ''matched_size'') (Var ''imbalance_size''))"

definition feature_engineering :: "lib \<Rightarrow> nat \<Rightarrow> nat prog" where
  "feature_engineering L X =
     bind (copy X) (\<lambda>X'.
     bind (df_eval L X' liquidity_expr) (\<lambda>li.
     bind (df_setitem X' ''liquidity_imbalance'' li) (\<lambda>_.
     bind (df_eval L X' matched_expr) (\<lambda>mi.
     bind (df_setitem X' ''matched_imbalance'' mi) (\<lambda>_.
     bind (df_getitem X' ''ask_price'') (\<lambda>ap.
     bind (df_getitem X' ''bid_price'') (\<lambda>bp.
     bind (df_setitem X' ''price_spread'' (col_sub L ap bp)) (\<lambda>_.
     bind (df_getitem X' ''price_spread'') (\<lambda>ps.
     bind (df_getitem X' ''liquidity_imbalance'') (\<lambda>li'.
     bind (df_setitem X' ''market_urgency'' (col_mul L ps li')) (\<lambda>_.
     bind (df_fillna_inplace X' (Fin 0)) (\<lambda>_.
     ret X'))))))))))))"

subsection \<open>Selecting rows\<close>

text \<open>
  \<^verbatim>\<open>df[mask]\<close> with a boolean series: the rows where the mask is true, in their
  order, with their index labels; the result is a new table.
\<close>

definition select :: "bool list \<Rightarrow> 'a list \<Rightarrow> 'a list" where
  "select msk xs = map snd (filter fst (zip msk xs))"

definition take_rows :: "bool list \<Rightarrow> frame \<Rightarrow> frame" where
  "take_rows msk F =
     \<lparr>index = select msk (index F),
      columns = map (\<lambda>(n, c). (n, Column (dtype_of c) (select msk (cells c)))) (columns F)\<rparr>"

definition df_take :: "nat \<Rightarrow> bool list \<Rightarrow> nat prog" where
  "df_take r msk = bind (deref r) (\<lambda>F. alloc (take_rows msk F))"

text \<open>\<^verbatim>\<open>df.dropna()\<close>: the rows with no missing value in any column, as a new table.\<close>

definition notna_mask :: "frame \<Rightarrow> bool list" where
  "notna_mask F =
     map (\<lambda>i. list_all (\<lambda>(n, c). \<not> isnull (cells c ! i)) (columns F)) [0..<nrows F]"

definition df_dropna :: "nat \<Rightarrow> nat prog" where
  "df_dropna r = bind (deref r) (\<lambda>F. alloc (take_rows (notna_mask F) F))"

subsection \<open>Statistics of a column\<close>

text \<open>
  pandas skips the missing values of a series in \<^verbatim>\<open>mean\<close>, \<^verbatim>\<open>std\<close> and \<^verbatim>\<open>median\<close>,
  and computes the first two on float64: it counts the values that are present, puts 0 in
  place of the missing ones and sums.
\<close>

definition present :: "cell list \<Rightarrow> cell list" where
  "present vs = filter (\<lambda>v. \<not> isnull v) vs"

text \<open>\<^verbatim>\<open>Series.mean()\<close>: the sum over the count; NaN when no value is present.\<close>

definition mean :: "lib \<Rightarrow> column \<Rightarrow> cell" where
  "mean L c =
     (let vals = float_cells (rnd L) c;
          count = length (present vals);
          the_sum = series_sum L (map (fillna_cell (Fin 0)) vals)
      in if count = 0 then NaN else cell_div (rnd L) the_sum (Fin (real count)))"

text \<open>
  \<^verbatim>\<open>Series.std()\<close>, with its default \<^verbatim>\<open>ddof=1\<close>: the square root of the sum of the
  squared deviations from the mean over the count less one; NaN when fewer than two values
  are present.
\<close>

definition std :: "lib \<Rightarrow> column \<Rightarrow> cell" where
  "std L c =
     (let vals = float_cells (rnd L) c;
          count = length (present vals);
          avg = cell_div (rnd L) (series_sum L (map (fillna_cell (Fin 0)) vals)) (Fin (real count));
          sqr = map (\<lambda>v. if isnull v then Fin 0
                          else cell_mul (rnd L) (cell_sub (rnd L) avg v) (cell_sub (rnd L) avg v)) vals
      in if count \<le> 1 then NaN
         else cell_sqrt (rnd L) (cell_div (rnd L) (series_sum L sqr) (Fin (real (count - 1)))))"

fun insert_cell :: "cell \<Rightarrow> cell list \<Rightarrow> cell list" where
  "insert_cell x [] = [x]"
| "insert_cell x (y # ys) = (if cell_le x y then x # y # ys else y # insert_cell x ys)"

definition sort_cells :: "cell list \<Rightarrow> cell list" where
  "sort_cells vs = foldr insert_cell vs []"

text \<open>
  \<^verbatim>\<open>Series.median()\<close>: the middle value, or the mean of the two middle values. A column
  with a missing value is a floating column, so the cells are taken as they are.
\<close>

definition median :: "lib \<Rightarrow> cell list \<Rightarrow> cell" where
  "median L vs =
     (let xs = sort_cells (present vs); k = length xs
      in if k = 0 then NaN
         else if odd k then xs ! (k div 2)
         else cell_div (rnd L) (cell_add (rnd L) (xs ! (k div 2 - 1)) (xs ! (k div 2))) (Fin 2))"

subsection \<open>One-hot encoding\<close>

text \<open>Python's \<^verbatim>\<open>str\<close> of an integer.\<close>

definition digit_char :: "nat \<Rightarrow> char" where
  "digit_char d = ''0123456789'' ! d"

fun str_nat :: "nat \<Rightarrow> string" where
  "str_nat n = (if n < 10 then [digit_char n] else str_nat (n div 10) @ [digit_char (n mod 10)])"

definition str_int :: "int \<Rightarrow> string" where
  "str_int i = (if i < 0 then CHR ''-'' # str_nat (nat (- i)) else str_nat (nat i))"

text \<open>
  The text of a category value in a column name. A value of an integer column prints as
  the integer. A value of a floating column prints as Python's \<^verbatim>\<open>repr\<close> of the
  float: a whole number below \<open>10\<^sup>1\<^sup>6\<close> in magnitude with \<^verbatim>\<open>.0\<close> appended; the text
  of any other finite float is left to the parameter \<open>float_repr\<close>.
\<close>

definition level_label :: "lib \<Rightarrow> dtype \<Rightarrow> cell \<Rightarrow> string" where
  "level_label L dt v =
     (case v of
        Fin x \<Rightarrow>
          if dt = Integer then str_int \<lfloor>x\<rfloor>
          else if of_int \<lfloor>x\<rfloor> = x \<and> \<bar>x\<bar> < 10 ^ 16 then str_int \<lfloor>x\<rfloor> @ ''.0''
          else float_repr L x
      | PInf \<Rightarrow> ''inf''
      | NInf \<Rightarrow> ''-inf''
      | NaN \<Rightarrow> ''nan'')"

text \<open>The categories of a column: its distinct values that are not missing, ascending.\<close>

definition levels :: "cell list \<Rightarrow> cell list" where
  "levels vs = sort_cells (remdups (present vs))"

definition indicator :: "cell list \<Rightarrow> cell \<Rightarrow> column" where
  "indicator vs l = Column Integer (map (\<lambda>v. if v = l then Fin 1 else Fin 0) vs)"

text \<open>
  \<^verbatim>\<open>pd.get_dummies(df, columns=[name], prefix=p)\<close>: the encoded column is dropped
  and one indicator column per category is appended, named \<^verbatim>\<open>p_<category>\<close>. A row
  whose value is missing has 0 in every indicator. An indicator holds 1 or 0 (an unsigned
  byte or a boolean, by the version of pandas); it is an integer column here.
\<close>

definition get_dummies :: "lib \<Rightarrow> frame \<Rightarrow> string \<Rightarrow> string \<Rightarrow> error + frame" where
  "get_dummies L F name prefix =
     (case map_of (columns F) name of
        None \<Rightarrow> Inl (KeyError name)
      | Some c \<Rightarrow>
          Inr (F\<lparr>columns :=
                 filter (\<lambda>(n, d). n \<noteq> name) (columns F) @
                 map (\<lambda>l. (prefix @ ''_'' @ level_label L (dtype_of c) l, indicator (cells c) l))
                     (levels (cells c))\<rparr>))"

definition pd_get_dummies :: "lib \<Rightarrow> nat \<Rightarrow> string \<Rightarrow> string \<Rightarrow> nat prog" where
  "pd_get_dummies L r name prefix =
     bind (deref r) (\<lambda>F. bind (lift (get_dummies L F name prefix)) alloc)"

text \<open>\<^verbatim>\<open>df.rename(columns={old: new})\<close>, a new table.\<close>

definition rename_one :: "string \<Rightarrow> string \<Rightarrow> string \<Rightarrow> string" where
  "rename_one old new n = (if n = old then new else n)"

definition rename_columns :: "string \<Rightarrow> string \<Rightarrow> frame \<Rightarrow> frame" where
  "rename_columns old new F = F\<lparr>columns := map (\<lambda>(n, c). (rename_one old new n, c)) (columns F)\<rparr>"

definition df_rename :: "nat \<Rightarrow> string \<Rightarrow> string \<Rightarrow> nat prog" where
  "df_rename r old new = bind (deref r) (\<lambda>F. alloc (rename_columns old new F))"

subsection \<open>Preprocessing\<close>

text \<open>\<^verbatim>\<open>data.columns[data.isnull().any()]\<close>\<close>

definition columns_with_missing :: "frame \<Rightarrow> string list" where
  "columns_with_missing F = map fst (filter (\<lambda>(n, c). list_ex isnull (cells c)) (columns F))"

text \<open>The loop that fills each such column with its median, writing into the table.\<close>

fun fill_medians :: "lib \<Rightarrow> nat \<Rightarrow> string list \<Rightarrow> unit prog" where
  "fill_medians L data [] = ret ()"
| "fill_medians L data (column # rest) =
     bind (df_getitem data column) (\<lambda>c.
     let median_value = median L (cells c) in
     bind (df_getitem data column) (\<lambda>c'.
     bind (df_setitem data column (fillna median_value c')) (\<lambda>_.
     fill_medians L data rest)))"

text \<open>
  With \<^verbatim>\<open>remove_missing\<close> the name \<^verbatim>\<open>data\<close> is rebound to the new table that
  \<^verbatim>\<open>dropna\<close> returns; without it the assignments \<^verbatim>\<open>data[...] = ...\<close> write into
  the table object the caller passed.
\<close>

definition data_preprocessing :: "lib \<Rightarrow> nat \<Rightarrow> bool \<Rightarrow> nat prog" where
  "data_preprocessing L data remove_missing =
     bind (if remove_missing then df_dropna data
           else
             bind (df_getitem data ''far_price'') (\<lambda>fp.
             bind (df_setitem data ''far_price'' (fillna (Fin 0) fp)) (\<lambda>_.
             bind (df_getitem data ''near_price'') (\<lambda>np.
             bind (df_setitem data ''near_price'' (fillna (Fin 0) np)) (\<lambda>_.
             bind (deref data) (\<lambda>F.
             bind (fill_medians L data (columns_with_missing F)) (\<lambda>_.
             ret data))))))) (\<lambda>data1.
     bind (pd_get_dummies L data1 ''imbalance_buy_sell_flag'' ''imbalance_flag'') (\<lambda>data2.
     df_rename data2 ''imbalance_flag_-1'' ''imbalance_flag_neg_1''))"

subsection \<open>Outlier filter\<close>

text \<open>
  The list \<^verbatim>\<open>count_variables\<close> that the function builds first is never used (the
  transformation that read it is commented out), so it has no counterpart here. The
  multiplier \<^verbatim>\<open>sigma\<close> enters the product as a float64 number, and a column is compared with
  the two bounds, which are float64 numbers, as float64.
\<close>

fun remove_loop :: "lib \<Rightarrow> nat \<Rightarrow> string list \<Rightarrow> real \<Rightarrow> nat prog" where
  "remove_loop L df_copy [] sigma = ret df_copy"
| "remove_loop L df_copy (column # rest) sigma =
     bind (df_getitem df_copy column) (\<lambda>c1.
     let mean_value = mean L c1 in
     bind (df_getitem df_copy column) (\<lambda>c2.
     let std_value = std L c2;
         lower_bound = cell_sub (rnd L) mean_value (cell_mul (rnd L) (fl (rnd L) sigma) std_value);
         upper_bound = cell_add (rnd L) mean_value (cell_mul (rnd L) (fl (rnd L) sigma) std_value) in
     bind (df_getitem df_copy column) (\<lambda>c3.
     bind (df_getitem df_copy column) (\<lambda>c4.
     bind (df_take df_copy (map2 (\<and>) (map (\<lambda>v. cell_ge v lower_bound) (float_cells (rnd L) c3))
                                       (map (\<lambda>v. cell_le v upper_bound) (float_cells (rnd L) c4)))) (\<lambda>df_copy'.
     remove_loop L df_copy' rest sigma)))))"

definition remove_extreme_values :: "lib \<Rightarrow> nat \<Rightarrow> string list \<Rightarrow> real \<Rightarrow> nat prog" where
  "remove_extreme_values L dataframe cols sigma =
     bind (copy dataframe) (\<lambda>df_copy. remove_loop L df_copy cols sigma)"

subsection \<open>Train and test split\<close>

text \<open>
  The threshold \<^verbatim>\<open>n\<close> is an \<^verbatim>\<open>int\<close>. numpy compares a column with it in the dtype of
  the column: an integer column with the integer, a floating column with the integer
  converted to float64.
\<close>

definition threshold :: "lib \<Rightarrow> column \<Rightarrow> int \<Rightarrow> cell" where
  "threshold L c n = (if dtype_of c = Integer then Fin (of_int n) else fl (rnd L) (of_int n))"

definition split_data :: "lib \<Rightarrow> nat \<Rightarrow> int \<Rightarrow> (nat \<times> nat) prog" where
  "split_data L data n =
     bind (df_getitem data ''date_id'') (\<lambda>d1.
     bind (df_take data (map (\<lambda>v. cell_lt v (threshold L d1 n)) (cells d1))) (\<lambda>train.
     bind (df_getitem data ''date_id'') (\<lambda>d2.
     bind (df_take data (map (\<lambda>v. cell_ge v (threshold L d2 n)) (cells d2))) (\<lambda>test.
     ret (train, test)))))"

section \<open>Readings of the model\<close>

text \<open>
  The definitions of this section are not translations of source text. They name what the
  statements below talk about: the table a function builds as a function of the table it
  is given, the cells of a named column, a store holding one table, a numeric library to
  compute examples with, and the formulas of the specification.
\<close>

subsection \<open>Observations\<close>

text \<open>The cells of a named column (no cells when there is no such column).\<close>

definition col_cells :: "frame \<Rightarrow> string \<Rightarrow> cell list" where
  "col_cells F n = (case map_of (columns F) n of None \<Rightarrow> [] | Some c \<Rightarrow> cells c)"

text \<open>A named column is there and is a floating column.\<close>

definition floating :: "frame \<Rightarrow> string \<Rightarrow> bool" where
  "floating F n = (case map_of (columns F) n of None \<Rightarrow> False | Some c \<Rightarrow> dtype_of c = Floating)"

text \<open>A store in which the caller's reference 0 (and every other one) holds the table.\<close>

definition store_of :: "frame \<Rightarrow> store" where
  "store_of T = \<lparr>objs = (\<lambda>_. T), fresh = 1\<rparr>"

text \<open>The cells of a named column of the table a call returns.\<close>

definition returned_cells :: "nat prog \<Rightarrow> store \<Rightarrow> string \<Rightarrow> cell list option" where
  "returned_cells p s n =
     (case p s of Inl e \<Rightarrow> None | Inr (r, s') \<Rightarrow> Some (col_cells (objs s' r) n))"

text \<open>The cells of a named column of the caller's table after a call.\<close>

definition callers_cells :: "nat prog \<Rightarrow> nat \<Rightarrow> store \<Rightarrow> string \<Rightarrow> cell list option" where
  "callers_cells p r s n =
     (case p s of Inl e \<Rightarrow> None | Inr (y, s') \<Rightarrow> Some (col_cells (objs s' r) n))"

text \<open>The column names of the table a call returns.\<close>

definition returned_names :: "nat prog \<Rightarrow> store \<Rightarrow> string list option" where
  "returned_names p s =
     (case p s of Inl e \<Rightarrow> None | Inr (r, s') \<Rightarrow> Some (column_names (objs s' r)))"

subsection \<open>A library that rounds nothing\<close>

text \<open>
  The examples below are computed with a library that keeps every number as it is, adds
  the cells of an array from left to right, and has a stand-in for Python's \<^verbatim>\<open>repr\<close> of
  a float that is no whole number. The numbers of the examples and of all their
  intermediate results are binary64 numbers (whole numbers, halves, quarters, powers of
  two), so that rounding to binary64 changes none of them, and no example has a category
  that is not a whole number.
\<close>

definition any_repr :: "real \<Rightarrow> string" where
  "any_repr x = ''?''"

definition exact_sum :: "cell list \<Rightarrow> cell" where
  "exact_sum vs = foldl (cell_add (\<lambda>v. v)) (Fin 0) vs"

definition exact_lib :: lib where
  "exact_lib = \<lparr>rnd = (\<lambda>v. v), series_sum = exact_sum, float_repr = any_repr\<rparr>"

subsection \<open>Rows\<close>

text \<open>
  The row at a position: its index label and its cells by column name. The rows of a table
  are what the specification speaks of when it says which rows a function keeps.
\<close>

definition row_at :: "frame \<Rightarrow> nat \<Rightarrow> nat \<times> (string \<times> cell) list" where
  "row_at F i = (index F ! i, map (\<lambda>(n, c). (n, cells c ! i)) (columns F))"

definition rows :: "frame \<Rightarrow> (nat \<times> (string \<times> cell) list) list" where
  "rows F = map (row_at F) [0..<nrows F]"

text \<open>The cell of a row in a named column (NaN when the row has no such column).\<close>

definition row_cell :: "nat \<times> (string \<times> cell) list \<Rightarrow> string \<Rightarrow> cell" where
  "row_cell r n = (case map_of (snd r) n of None \<Rightarrow> NaN | Some v \<Rightarrow> v)"

text \<open>
  The float64 value with which a cell of a named column of a table enters a statistic or a
  comparison with a float64 number: the cell itself, converted when the column is an
  integer column.
\<close>

definition float_of :: "lib \<Rightarrow> frame \<Rightarrow> string \<Rightarrow> cell \<Rightarrow> cell" where
  "float_of L F n v =
     (case map_of (columns F) n of
        None \<Rightarrow> v
      | Some c \<Rightarrow> if dtype_of c = Integer then to_float (rnd L) v else v)"

text \<open>The positions at which a mask is true.\<close>

definition positions :: "bool list \<Rightarrow> nat list" where
  "positions m = filter (\<lambda>i. m ! i) [0..<length m]"


subsection \<open>The table that feature engineering builds\<close>

definition engineer :: "lib \<Rightarrow> frame \<Rightarrow> error + frame" where
  "engineer L F =
     bind_err (eval_expr L F liquidity_expr) (\<lambda>li.
     let F1 = setitem F ''liquidity_imbalance'' li in
     bind_err (eval_expr L F1 matched_expr) (\<lambda>mi.
     let F2 = setitem F1 ''matched_imbalance'' mi in
     bind_err (getitem F2 ''ask_price'') (\<lambda>ap.
     bind_err (getitem F2 ''bid_price'') (\<lambda>bp.
     let F3 = setitem F2 ''price_spread'' (col_sub L ap bp) in
     bind_err (getitem F3 ''price_spread'') (\<lambda>ps.
     bind_err (getitem F3 ''liquidity_imbalance'') (\<lambda>li'.
     let F4 = setitem F3 ''market_urgency'' (col_mul L ps li') in
     Inr (fillna_frame (Fin 0) F4)))))))"

definition derived_columns ::
  "lib \<Rightarrow> column \<Rightarrow> column \<Rightarrow> column \<Rightarrow> column \<Rightarrow> column \<Rightarrow> column \<Rightarrow>
   (string \<times> column) list \<Rightarrow> (string \<times> column) list" where
  "derived_columns L b a im m ap bp ps =
     assign ''market_urgency''
       (col_mul L (col_sub L ap bp) (col_div L (col_sub L b a) (col_add L b a)))
    (assign ''price_spread'' (col_sub L ap bp)
    (assign ''matched_imbalance'' (col_div L (col_sub L im m) (col_add L m im))
    (assign ''liquidity_imbalance'' (col_div L (col_sub L b a) (col_add L b a)) ps)))"

subsection \<open>The table that the outlier filter builds\<close>

text \<open>The mask of one pass of the loop, and the pass itself as a function of the table.\<close>

definition band_mask :: "lib \<Rightarrow> column \<Rightarrow> real \<Rightarrow> bool list" where
  "band_mask L c sigma =
     (let lower_bound = cell_sub (rnd L) (mean L c) (cell_mul (rnd L) (fl (rnd L) sigma) (std L c));
          upper_bound = cell_add (rnd L) (mean L c) (cell_mul (rnd L) (fl (rnd L) sigma) (std L c))
      in map2 (\<and>) (map (\<lambda>v. cell_ge v lower_bound) (float_cells (rnd L) c))
                   (map (\<lambda>v. cell_le v upper_bound) (float_cells (rnd L) c)))"

fun filter_steps :: "lib \<Rightarrow> frame \<Rightarrow> string list \<Rightarrow> real \<Rightarrow> error + frame" where
  "filter_steps L F [] sigma = Inr F"
| "filter_steps L F (column # rest) sigma =
     (case map_of (columns F) column of
        None \<Rightarrow> Inl (KeyError column)
      | Some c \<Rightarrow> filter_steps L (take_rows (band_mask L c sigma) F) rest sigma)"

subsection \<open>The tables that preprocessing builds\<close>

text \<open>The median loop as a function of the table it writes into.\<close>

fun fill_medians_frame :: "lib \<Rightarrow> frame \<Rightarrow> string list \<Rightarrow> error + frame" where
  "fill_medians_frame L F [] = Inr F"
| "fill_medians_frame L F (column # rest) =
     (case map_of (columns F) column of
        None \<Rightarrow> Inl (KeyError column)
      | Some c \<Rightarrow> fill_medians_frame L (setitem F column (fillna (median L (cells c)) c)) rest)"

text \<open>The caller's table after the branch without \<^verbatim>\<open>remove_missing\<close>.\<close>

definition impute :: "lib \<Rightarrow> frame \<Rightarrow> error + frame" where
  "impute L F =
     bind_err (getitem F ''far_price'') (\<lambda>fp.
     let F1 = setitem F ''far_price'' (fillna (Fin 0) fp) in
     bind_err (getitem F1 ''near_price'') (\<lambda>np.
     let F2 = setitem F1 ''near_price'' (fillna (Fin 0) np) in
     fill_medians_frame L F2 (columns_with_missing F2)))"

text \<open>The encoding and the renaming that end both branches.\<close>

definition encode :: "lib \<Rightarrow> frame \<Rightarrow> error + frame" where
  "encode L F =
     bind_err (get_dummies L F ''imbalance_buy_sell_flag'' ''imbalance_flag'') (\<lambda>D.
     Inr (rename_columns ''imbalance_flag_-1'' ''imbalance_flag_neg_1'' D))"

subsection \<open>Formulas of the specification\<close>


text \<open>
  The mean and the sample standard deviation of the values of a column, in the words of
  the specification, computed in float64 on the values that are not missing: the sum of the
  values over their number, and the square root of the sum of the squared deviations from
  the mean over their number less one. Neither exists (NaN) without a value, the second
  not without two.
\<close>

definition spec_mean :: "lib \<Rightarrow> cell list \<Rightarrow> cell" where
  "spec_mean L vs =
     (if present vs = [] then NaN
      else cell_div (rnd L) (series_sum L (map (\<lambda>v. if v = NaN then Fin 0 else v) vs))
                            (Fin (real (length (present vs)))))"

definition spec_deviation :: "lib \<Rightarrow> cell list \<Rightarrow> cell \<Rightarrow> cell" where
  "spec_deviation L vs v = cell_sub (rnd L) (spec_mean L vs) v"

definition spec_std :: "lib \<Rightarrow> cell list \<Rightarrow> cell" where
  "spec_std L vs =
     (if length (present vs) < 2 then NaN
      else cell_sqrt (rnd L)
             (cell_div (rnd L)
                (series_sum L
                   (map (\<lambda>v. if v = NaN then Fin 0
                              else cell_mul (rnd L) (spec_deviation L vs v) (spec_deviation L vs v)) vs))
                (Fin (real (length (present vs)) - 1))))"

text \<open>
  A value lies in the band of a column when it is in the closed interval
  \<open>[mean - sigma \<sqdot> std, mean + sigma \<sqdot> std]\<close>, mean and sample standard deviation taken
  over the values of the column, the bounds computed in float64.
\<close>

definition spec_band :: "lib \<Rightarrow> cell list \<Rightarrow> real \<Rightarrow> cell \<Rightarrow> bool" where
  "spec_band L vs sigma v =
     (cell_le (cell_sub (rnd L) (spec_mean L vs) (cell_mul (rnd L) (fl (rnd L) sigma) (spec_std L vs))) v \<and>
      cell_le v (cell_add (rnd L) (spec_mean L vs) (cell_mul (rnd L) (fl (rnd L) sigma) (spec_std L vs))))"

text \<open>
  One column: the statistics are those of the rows at hand, and the rows in the band stay.
  The function \<open>conv\<close> gives the float64 value of a cell of a named column.
\<close>

definition spec_filter_rows ::
  "lib \<Rightarrow> (string \<Rightarrow> cell \<Rightarrow> cell) \<Rightarrow> (nat \<times> (string \<times> cell) list) list \<Rightarrow> string \<Rightarrow> real \<Rightarrow>
   (nat \<times> (string \<times> cell) list) list" where
  "spec_filter_rows L conv R column sigma =
     filter (\<lambda>r. spec_band L (map (\<lambda>r. conv column (row_cell r column)) R) sigma
                   (conv column (row_cell r column))) R"

text \<open>The columns in the order given, each on the rows the previous ones left.\<close>

definition spec_remove_extreme ::
  "lib \<Rightarrow> (string \<Rightarrow> cell \<Rightarrow> cell) \<Rightarrow> (nat \<times> (string \<times> cell) list) list \<Rightarrow> string list \<Rightarrow> real \<Rightarrow>
   (nat \<times> (string \<times> cell) list) list" where
  "spec_remove_extreme L conv R cols sigma =
     foldl (\<lambda>R column. spec_filter_rows L conv R column sigma) R cols"

text \<open>
  The value that replaces the missing entries of a column, in the words of the
  specification: 0 for \<^verbatim>\<open>far_price\<close> and \<^verbatim>\<open>near_price\<close>, the median of the column
  over its non-missing values for every other column.
\<close>

definition fill_value :: "lib \<Rightarrow> string \<Rightarrow> column \<Rightarrow> cell" where
  "fill_value L n c =
     (if n = ''far_price'' \<or> n = ''near_price'' then Fin 0 else median L (cells c))"

text \<open>
  The name of the indicator column of an integer category, in the words of the
  specification: the prefix \<^verbatim>\<open>imbalance_flag_\<close> before the value, except that the
  column of \<open>-1\<close> is \<^verbatim>\<open>imbalance_flag_neg_1\<close>.
\<close>

definition spec_flag_name :: "int \<Rightarrow> string" where
  "spec_flag_name k =
     (if k = - 1 then ''imbalance_flag_neg_1'' else ''imbalance_flag_'' @ str_int k)"

text \<open>The whole number in a cell of an integer column.\<close>

definition cell_int :: "cell \<Rightarrow> int" where
  "cell_int v = (case v of Fin x \<Rightarrow> \<lfloor>x\<rfloor> | _ \<Rightarrow> 0)"



subsection \<open>Example tables\<close>







definition twice_counter_table :: frame where
  "twice_counter_table =
     \<lparr>index = [0],
      columns =
        [(''bid_size'', Column Floating [NaN]),
         (''ask_size'', Column Floating [Fin 5]),
         (''imbalance_size'', Column Floating [Fin 1]),
         (''matched_size'', Column Floating [Fin 1]),
         (''ask_price'', Column Floating [Fin 1]),
         (''bid_price'', Column Floating [Fin 1])]\<rparr>"

definition twice_table :: frame where
  "twice_table =
     \<lparr>index = [0, 1],
      columns =
        [(''bid_size'', Column Floating [Fin 3, Fin 0]),
         (''ask_size'', Column Floating [Fin 1, Fin 0]),
         (''imbalance_size'', Column Floating [Fin 1, Fin 0]),
         (''matched_size'', Column Floating [Fin 3, Fin 0]),
         (''ask_price'', Column Floating [Fin 5, Fin 4]),
         (''bid_price'', Column Floating [Fin 1, Fin 1])]\<rparr>"

definition fill_table :: frame where
  "fill_table =
     \<lparr>index = [0, 1],
      columns =
        [(''far_price'', Column Floating [NaN, Fin 7]),
         (''bid_size'', Column Floating [NaN, Fin 3]),
         (''ask_size'', Column Floating [Fin 1, Fin 1]),
         (''imbalance_size'', Column Floating [Fin 1, Fin 0]),
         (''matched_size'', Column Floating [Fin 3, Fin 0]),
         (''ask_price'', Column Floating [Fin 5, Fin 4]),
         (''bid_price'', Column Floating [Fin 1, Fin 1])]\<rparr>"



definition band_table :: frame where
  "band_table =
     \<lparr>index = [10, 11, 12, 13, 14],
      columns =
        [(''x'', Column Floating [Fin 0, Fin 0, Fin 0, Fin 4, NaN]),
         (''y'', Column Floating [Fin 0, Fin 4, Fin 2, Fin 1000, Fin 7])]\<rparr>"

definition missing_table :: frame where
  "missing_table =
     \<lparr>index = [10, 11, 12, 13, 14],
      columns =
        [(''x'', Column Floating [Fin 0, Fin 0, Fin 0, Fin 4, NaN]),
         (''y'', Column Floating [Fin 0, Fin 4, Fin 2, NaN, Fin 7])]\<rparr>"

definition caller_table :: frame where
  "caller_table =
     \<lparr>index = [0, 1],
      columns =
        [(''far_price'', Column Floating [NaN, Fin 2]),
         (''near_price'', Column Floating [Fin 3, Fin 4]),
         (''imbalance_buy_sell_flag'', Column Integer [Fin 1, Fin (- 1)])]\<rparr>"

definition median_counter_table :: frame where
  "median_counter_table =
     \<lparr>index = [0, 1, 2],
      columns =
        [(''far_price'', Column Floating [NaN, Fin 2, Fin 2]),
         (''near_price'', Column Floating [Fin 3, Fin 4, Fin 4]),
         (''wap'', Column Floating [NaN, NaN, NaN]),
         (''bid_size'', Column Floating [NaN, NInf, PInf]),
         (''imbalance_buy_sell_flag'', Column Integer [Fin 1, Fin (- 1), Fin 1])]\<rparr>"

definition median_table :: frame where
  "median_table =
     \<lparr>index = [0, 1, 2],
      columns =
        [(''far_price'', Column Floating [NaN, Fin 2, NaN]),
         (''near_price'', Column Floating [Fin 3, NaN, Fin 1]),
         (''wap'', Column Floating [Fin 3, NaN, Fin 1]),
         (''imbalance_buy_sell_flag'', Column Integer [Fin 1, Fin (- 1), Fin 1])]\<rparr>"

definition names_counter_table :: frame where
  "names_counter_table =
     \<lparr>index = [0, 1, 2],
      columns =
        [(''far_price'', Column Floating [Fin 1, Fin 2, Fin 3]),
         (''near_price'', Column Floating [Fin 3, Fin 4, Fin 5]),
         (''imbalance_buy_sell_flag'', Column Floating [Fin 1, Fin (- 1), NaN])]\<rparr>"

definition names_dropped_table :: frame where
  "names_dropped_table =
     \<lparr>index = [0, 1],
      columns =
        [(''far_price'', Column Floating [NaN, Fin 2]),
         (''near_price'', Column Floating [Fin 3, Fin 4]),
         (''imbalance_buy_sell_flag'', Column Integer [Fin 1, Fin (- 1)])]\<rparr>"

definition names_table :: frame where
  "names_table =
     \<lparr>index = [0, 1, 2],
      columns =
        [(''far_price'', Column Floating [NaN, Fin 2, Fin 3]),
         (''near_price'', Column Floating [Fin 3, Fin 4, Fin 5]),
         (''wap'', Column Floating [NaN, Fin 1, Fin 1]),
         (''imbalance_buy_sell_flag'', Column Integer [Fin 1, Fin (- 1), Fin 0])]\<rparr>"

section \<open>Numbers\<close>

lemma fl_not_NaN [simp]: "fl r v \<noteq> NaN" "NaN \<noteq> fl r v"
  by (simp_all add: fl_def)

lemma fl_zero [simp]: "fl r 0 = Fin 0"
  by (simp add: fl_def)

lemma to_float_NaN [simp]: "to_float r v = NaN \<longleftrightarrow> v = NaN"
  by (cases v) simp_all

text \<open>The library that rounds nothing leaves a number below \<open>2\<^sup>1\<^sup>0\<^sup>2\<^sup>3\<close> as it is.\<close>

lemma max_double_ge: "2 ^ 1023 \<le> max_double"
proof -
  have "(1::real) \<le> 2 - 1 / 2 ^ 52"
    by simp
  then have "1 * (2::real) ^ 1023 \<le> (2 - 1 / 2 ^ 52) * 2 ^ 1023"
    by (rule mult_right_mono) simp
  then show ?thesis
    by (simp add: max_double_def)
qed

lemma fl_exact: "\<bar>v\<bar> \<le> 2 ^ 1023 \<Longrightarrow> fl (\<lambda>v. v) v = Fin v"
  using max_double_ge by (simp add: fl_def)

lemma fl_exact_small: "\<bar>v\<bar> \<le> 1000000 \<Longrightarrow> fl (\<lambda>v. v) v = Fin v"
proof (rule fl_exact)
  assume "\<bar>v\<bar> \<le> 1000000"
  moreover have "(1000000::real) \<le> 2 ^ 20"
    by simp
  moreover have "(2::real) ^ 20 \<le> 2 ^ 1023"
    by (rule power_increasing) simp_all
  ultimately show "\<bar>v\<bar> \<le> 2 ^ 1023"
    by linarith
qed






section \<open>Feature engineering\<close>

subsection \<open>Lookups\<close>

lemma map_of_assign: "map_of (assign n c ps) m = (if m = n then Some c else map_of ps m)"
  by (induction ps) auto

lemma map_of_map_snd: "map_of (map (\<lambda>(n, c). (n, f c)) ps) n = map_option f (map_of ps n)"
  by (induction ps) auto

lemma wf_frame_length:
  "wf_frame F \<Longrightarrow> map_of (columns F) n = Some c \<Longrightarrow> length (cells c) = nrows F"
  by (auto simp: wf_frame_def list_all_iff dest!: map_of_SomeD)

subsection \<open>What a call returns\<close>

text \<open>
  A call allocates one table, the copy; every write goes into the copy, and the copy is
  returned holding the table \<open>engineer\<close> computes from the caller's table.
\<close>

lemma feature_engineering_engineer:
  "feature_engineering L X s =
     (case engineer L (objs s X) of Inl e \<Rightarrow> Inl e
      | Inr G \<Rightarrow> Inr (fresh s, s\<lparr>objs := (objs s)(fresh s := G), fresh := Suc (fresh s)\<rparr>))"
  unfolding feature_engineering_def engineer_def
  by (simp add: bind_def copy_def deref_def alloc_def df_eval_def lift_def df_setitem_def modify_def
      df_getitem_def df_fillna_inplace_def ret_def Let_def split: sum.splits)

lemma engineer_Inr:
  assumes "engineer L F = Inr G"
  shows "\<exists>b a im m ap bp.
           map_of (columns F) ''bid_size'' = Some b \<and> map_of (columns F) ''ask_size'' = Some a \<and>
           map_of (columns F) ''imbalance_size'' = Some im \<and>
           map_of (columns F) ''matched_size'' = Some m \<and>
           map_of (columns F) ''ask_price'' = Some ap \<and> map_of (columns F) ''bid_price'' = Some bp \<and>
           index G = index F \<and>
           columns G = map (\<lambda>(n, c). (n, fillna (Fin 0) c)) (derived_columns L b a im m ap bp (columns F))"
  using assms
  unfolding engineer_def liquidity_expr_def matched_expr_def derived_columns_def
  by (auto simp: Let_def getitem_def setitem_def map_of_assign fillna_frame_def split: option.splits)

lemma feature_engineering_Inr:
  assumes "feature_engineering L X s = Inr (Y, s')"
  shows "\<exists>b a im m ap bp.
           map_of (columns (objs s X)) ''bid_size'' = Some b \<and>
           map_of (columns (objs s X)) ''ask_size'' = Some a \<and>
           map_of (columns (objs s X)) ''imbalance_size'' = Some im \<and>
           map_of (columns (objs s X)) ''matched_size'' = Some m \<and>
           map_of (columns (objs s X)) ''ask_price'' = Some ap \<and>
           map_of (columns (objs s X)) ''bid_price'' = Some bp \<and>
           index (objs s' Y) = index (objs s X) \<and>
           columns (objs s' Y) =
             map (\<lambda>(n, c). (n, fillna (Fin 0) c)) (derived_columns L b a im m ap bp (columns (objs s X)))"
proof -
  from assms obtain G where G: "engineer L (objs s X) = Inr G" and "objs s' Y = G"
    by (auto simp: feature_engineering_engineer split: sum.splits)
  with engineer_Inr [OF G] show ?thesis by simp
qed

lemma derived_lookup:
  "map_of (derived_columns L b a im m ap bp ps) ''liquidity_imbalance'' =
     Some (col_div L (col_sub L b a) (col_add L b a))"
  "map_of (derived_columns L b a im m ap bp ps) ''matched_imbalance'' =
     Some (col_div L (col_sub L im m) (col_add L m im))"
  "map_of (derived_columns L b a im m ap bp ps) ''price_spread'' = Some (col_sub L ap bp)"
  "map_of (derived_columns L b a im m ap bp ps) ''market_urgency'' =
     Some (col_mul L (col_sub L ap bp) (col_div L (col_sub L b a) (col_add L b a)))"
  by (simp_all add: derived_columns_def map_of_assign)

lemma derived_lookup_other:
  "n \<noteq> ''liquidity_imbalance'' \<Longrightarrow> n \<noteq> ''matched_imbalance'' \<Longrightarrow> n \<noteq> ''price_spread'' \<Longrightarrow>
   n \<noteq> ''market_urgency'' \<Longrightarrow> map_of (derived_columns L b a im m ap bp ps) n = map_of ps n"
  by (simp add: derived_columns_def map_of_assign)


lemma floating_dtype: "floating F n \<Longrightarrow> map_of (columns F) n = Some c \<Longrightarrow> dtype_of c = Floating"
  by (simp add: floating_def)

text \<open>Facts that evaluate a call on a concrete table.\<close>

lemmas run_defs = feature_engineering_engineer engineer_def liquidity_expr_def matched_expr_def
  getitem_def setitem_def fillna_frame_def fillna_def fillna_cell_def isnull_def
  col_sub_def col_add_def col_mul_def col_div_def col_arith_def float_cells_def cell_sub_def
  signed_inf_def exact_lib_def fl_exact_small store_of_def col_cells_def returned_cells_def

subsection \<open>The two ratios\<close>







subsection \<open>Market urgency\<close>


lemma length_float_cells [simp]: "length (float_cells r c) = length (cells c)"
  by (simp add: float_cells_def)

lemma length_col_div [simp]:
  "length (cells (col_div L a b)) = min (length (cells a)) (length (cells b))"
  by (simp add: col_div_def)

lemma length_col_arith [simp]:
  "length (cells (col_arith f g r a b)) = min (length (cells a)) (length (cells b))"
  by (simp add: col_arith_def)





subsection \<open>Engineering twice\<close>

lemma engineer_total:
  assumes "map_of (columns F) ''bid_size'' = Some b" "map_of (columns F) ''ask_size'' = Some a"
    "map_of (columns F) ''imbalance_size'' = Some im" "map_of (columns F) ''matched_size'' = Some m"
    "map_of (columns F) ''ask_price'' = Some ap" "map_of (columns F) ''bid_price'' = Some bp"
  shows "engineer L F =
           Inr (F\<lparr>columns := map (\<lambda>(n, c). (n, fillna (Fin 0) c)) (derived_columns L b a im m ap bp (columns F))\<rparr>)"
  using assms
  unfolding engineer_def liquidity_expr_def matched_expr_def derived_columns_def
  by (simp add: Let_def getitem_def setitem_def map_of_assign fillna_frame_def)

lemma fillna_id: "NaN \<notin> set (cells c) \<Longrightarrow> fillna d c = c"
proof -
  assume "NaN \<notin> set (cells c)"
  then have "map (fillna_cell d) (cells c) = cells c"
    by (intro map_idI) (auto simp: fillna_cell_def isnull_def)
  then show ?thesis by (simp add: fillna_def)
qed

text \<open>
  Claim C8 as stated fails. A row with a missing \<^verbatim>\<open>bid_size\<close> and \<^verbatim>\<open>ask_size = 5\<close>
  gets \<^verbatim>\<open>liquidity_imbalance = 0\<close> from the first call, which also returns the missing
  \<^verbatim>\<open>bid_size\<close> as 0; the second call then computes \<open>(0 - 5) / (0 + 5) = -1\<close>.
\<close>

theorem feature_engineering_twice_counterexample:
  "returned_cells (feature_engineering exact_lib 0) (store_of twice_counter_table) ''liquidity_imbalance'' = Some [Fin 0] \<and>
   returned_cells (bind (feature_engineering exact_lib 0) (feature_engineering exact_lib)) (store_of twice_counter_table)
     ''liquidity_imbalance'' = Some [Fin (- 1)]"
  by (simp add: run_defs bind_def twice_counter_table_def)

text \<open>
  Claim C8, amended. For every table in which none of the six base columns
  (\<^verbatim>\<open>bid_size\<close>, \<^verbatim>\<open>ask_size\<close>, \<^verbatim>\<open>imbalance_size\<close>, \<^verbatim>\<open>matched_size\<close>,
  \<^verbatim>\<open>ask_price\<close>, \<^verbatim>\<open>bid_price\<close>) has a missing value: when the call returns, a second
  call on the returned table returns too, and the four derived columns of its result are
  those of the first result.
\<close>

theorem feature_engineering_twice:
  assumes run: "feature_engineering L X s = Inr (Y, s')"
    and present:
      "NaN \<notin> set (col_cells (objs s X) ''bid_size'')"
      "NaN \<notin> set (col_cells (objs s X) ''ask_size'')"
      "NaN \<notin> set (col_cells (objs s X) ''imbalance_size'')"
      "NaN \<notin> set (col_cells (objs s X) ''matched_size'')"
      "NaN \<notin> set (col_cells (objs s X) ''ask_price'')"
      "NaN \<notin> set (col_cells (objs s X) ''bid_price'')"
  shows "\<exists>Z s''. feature_engineering L Y s' = Inr (Z, s'') \<and>
           map_of (columns (objs s'' Z)) ''liquidity_imbalance'' =
             map_of (columns (objs s' Y)) ''liquidity_imbalance'' \<and>
           map_of (columns (objs s'' Z)) ''matched_imbalance'' =
             map_of (columns (objs s' Y)) ''matched_imbalance'' \<and>
           map_of (columns (objs s'' Z)) ''price_spread'' =
             map_of (columns (objs s' Y)) ''price_spread'' \<and>
           map_of (columns (objs s'' Z)) ''market_urgency'' =
             map_of (columns (objs s' Y)) ''market_urgency''"
proof -
  let ?F = "objs s X" and ?G = "objs s' Y"
  from feature_engineering_Inr [OF run] obtain b a im m ap bp where
    look: "map_of (columns ?F) ''bid_size'' = Some b" "map_of (columns ?F) ''ask_size'' = Some a"
      "map_of (columns ?F) ''imbalance_size'' = Some im" "map_of (columns ?F) ''matched_size'' = Some m"
      "map_of (columns ?F) ''ask_price'' = Some ap" "map_of (columns ?F) ''bid_price'' = Some bp" and
    cols: "columns ?G = map (\<lambda>(n, c). (n, fillna (Fin 0) c)) (derived_columns L b a im m ap bp (columns ?F))"
    by blast
  from present look have keep: "fillna (Fin 0) b = b" "fillna (Fin 0) a = a" "fillna (Fin 0) im = im"
    "fillna (Fin 0) m = m" "fillna (Fin 0) ap = ap" "fillna (Fin 0) bp = bp"
    by (simp_all add: col_cells_def fillna_id)
  have look': "map_of (columns ?G) ''bid_size'' = Some b" "map_of (columns ?G) ''ask_size'' = Some a"
      "map_of (columns ?G) ''imbalance_size'' = Some im" "map_of (columns ?G) ''matched_size'' = Some m"
      "map_of (columns ?G) ''ask_price'' = Some ap" "map_of (columns ?G) ''bid_price'' = Some bp"
    by (simp_all add: cols map_of_map_snd derived_lookup_other look keep)
  define H where "H = ?G\<lparr>columns := map (\<lambda>(n, c). (n, fillna (Fin 0) c)) (derived_columns L b a im m ap bp (columns ?G))\<rparr>"
  have "engineer L ?G = Inr H"
    unfolding H_def by (rule engineer_total [OF look'])
  then have run2: "feature_engineering L Y s' =
      Inr (fresh s', s'\<lparr>objs := (objs s')(fresh s' := H), fresh := Suc (fresh s')\<rparr>)"
    by (simp add: feature_engineering_engineer)
  have "map_of (columns H) n = map_of (columns ?G) n"
    if "n \<in> {''liquidity_imbalance'', ''matched_imbalance'', ''price_spread'', ''market_urgency''}" for n
    using that by (auto simp: H_def cols map_of_map_snd derived_lookup)
  with run2 show ?thesis by simp
qed

text \<open>The amended claim on a table without missing values, one row dividing by zero.\<close>

theorem feature_engineering_twice_witness:
  "\<exists>Y s' Z s''. feature_engineering exact_lib 0 (store_of twice_table) = Inr (Y, s') \<and>
     NaN \<notin> set (col_cells (objs (store_of twice_table) 0) ''bid_size'') \<and>
     NaN \<notin> set (col_cells (objs (store_of twice_table) 0) ''ask_size'') \<and>
     NaN \<notin> set (col_cells (objs (store_of twice_table) 0) ''imbalance_size'') \<and>
     NaN \<notin> set (col_cells (objs (store_of twice_table) 0) ''matched_size'') \<and>
     NaN \<notin> set (col_cells (objs (store_of twice_table) 0) ''ask_price'') \<and>
     NaN \<notin> set (col_cells (objs (store_of twice_table) 0) ''bid_price'') \<and>
     feature_engineering exact_lib Y s' = Inr (Z, s'') \<and>
     col_cells (objs s' Y) ''liquidity_imbalance'' = [Fin (1 / 2), Fin 0] \<and>
     col_cells (objs s'' Z) ''liquidity_imbalance'' = [Fin (1 / 2), Fin 0] \<and>
     col_cells (objs s'' Z) ''matched_imbalance'' = col_cells (objs s' Y) ''matched_imbalance'' \<and>
     col_cells (objs s'' Z) ''price_spread'' = col_cells (objs s' Y) ''price_spread'' \<and>
     col_cells (objs s'' Z) ''market_urgency'' = col_cells (objs s' Y) ''market_urgency''"
proof -
  obtain Y s' where run: "feature_engineering exact_lib 0 (store_of twice_table) = Inr (Y, s')"
    and out: "col_cells (objs s' Y) ''liquidity_imbalance'' = [Fin (1 / 2), Fin 0]"
    by (simp add: run_defs twice_table_def)
  have present:
    "NaN \<notin> set (col_cells (objs (store_of twice_table) 0) ''bid_size'')"
    "NaN \<notin> set (col_cells (objs (store_of twice_table) 0) ''ask_size'')"
    "NaN \<notin> set (col_cells (objs (store_of twice_table) 0) ''imbalance_size'')"
    "NaN \<notin> set (col_cells (objs (store_of twice_table) 0) ''matched_size'')"
    "NaN \<notin> set (col_cells (objs (store_of twice_table) 0) ''ask_price'')"
    "NaN \<notin> set (col_cells (objs (store_of twice_table) 0) ''bid_price'')"
    by (simp_all add: col_cells_def store_of_def twice_table_def)
  from feature_engineering_twice [OF run present] obtain Z s'' where
    run2: "feature_engineering exact_lib Y s' = Inr (Z, s'')" and
    same: "map_of (columns (objs s'' Z)) ''liquidity_imbalance'' =
             map_of (columns (objs s' Y)) ''liquidity_imbalance''"
          "map_of (columns (objs s'' Z)) ''matched_imbalance'' =
             map_of (columns (objs s' Y)) ''matched_imbalance''"
          "map_of (columns (objs s'' Z)) ''price_spread'' =
             map_of (columns (objs s' Y)) ''price_spread''"
          "map_of (columns (objs s'' Z)) ''market_urgency'' =
             map_of (columns (objs s' Y)) ''market_urgency''"
    by blast
  from same have eq:
    "col_cells (objs s'' Z) ''liquidity_imbalance'' = col_cells (objs s' Y) ''liquidity_imbalance''"
    "col_cells (objs s'' Z) ''matched_imbalance'' = col_cells (objs s' Y) ''matched_imbalance''"
    "col_cells (objs s'' Z) ''price_spread'' = col_cells (objs s' Y) ''price_spread''"
    "col_cells (objs s'' Z) ''market_urgency'' = col_cells (objs s' Y) ''market_urgency''"
    by (simp_all add: col_cells_def)
  from run present run2 out eq show ?thesis by metis
qed


subsection \<open>The final fill\<close>

text \<open>
  Claim C9. When the call returns, no column of the returned table holds a missing value,
  and every column of the given table other than the four derived names comes back with
  each missing cell replaced by 0 and every other cell as it was.
\<close>

theorem feature_engineering_fills_every_column:
  assumes run: "feature_engineering L X s = Inr (Y, s')"
  shows "(\<forall>(n, c) \<in> set (columns (objs s' Y)). NaN \<notin> set (cells c)) \<and>
         (n \<notin> {''liquidity_imbalance'', ''matched_imbalance'', ''price_spread'', ''market_urgency''}
            \<longrightarrow> col_cells (objs s' Y) n =
                  map (\<lambda>v. if v = NaN then Fin 0 else v) (col_cells (objs s X) n))"
proof -
  from feature_engineering_Inr [OF run] obtain b a im m ap bp where
    cols: "columns (objs s' Y) =
       map (\<lambda>(n, c). (n, fillna (Fin 0) c)) (derived_columns L b a im m ap bp (columns (objs s X)))"
    by blast
  have "NaN \<notin> set (cells (fillna (Fin 0) c))" for c
    by (auto simp: fillna_def fillna_cell_def isnull_def)
  then have 1: "\<forall>(n, c) \<in> set (columns (objs s' Y)). NaN \<notin> set (cells c)"
    unfolding cols by auto
  have 2: "col_cells (objs s' Y) n = map (\<lambda>v. if v = NaN then Fin 0 else v) (col_cells (objs s X) n)"
    if "n \<notin> {''liquidity_imbalance'', ''matched_imbalance'', ''price_spread'', ''market_urgency''}"
    using that
    by (auto simp: col_cells_def cols map_of_map_snd derived_lookup_other fillna_def fillna_cell_def
        isnull_def split: option.splits)
  from 1 2 show ?thesis by blast
qed

text \<open>Claim C9 on a table with a missing \<^verbatim>\<open>far_price\<close> and a missing \<^verbatim>\<open>bid_size\<close>.\<close>

theorem feature_engineering_fills_every_column_witness:
  "\<exists>Y s'. feature_engineering exact_lib 0 (store_of fill_table) = Inr (Y, s') \<and>
     col_cells (objs (store_of fill_table) 0) ''far_price'' = [NaN, Fin 7] \<and>
     col_cells (objs (store_of fill_table) 0) ''bid_size'' = [NaN, Fin 3] \<and>
     col_cells (objs s' Y) ''far_price'' = [Fin 0, Fin 7] \<and>
     col_cells (objs s' Y) ''bid_size'' = [Fin 0, Fin 3] \<and>
     (\<forall>(n, c) \<in> set (columns (objs s' Y)). NaN \<notin> set (cells c))"
proof -
  obtain Y s' where run: "feature_engineering exact_lib 0 (store_of fill_table) = Inr (Y, s')"
    by (simp add: run_defs fill_table_def)
  have inp: "col_cells (objs (store_of fill_table) 0) ''far_price'' = [NaN, Fin 7]"
    "col_cells (objs (store_of fill_table) 0) ''bid_size'' = [NaN, Fin 3]"
    by (simp_all add: col_cells_def store_of_def fill_table_def)
  have far: "col_cells (objs s' Y) ''far_price'' = [Fin 0, Fin 7]"
    using feature_engineering_fills_every_column [OF run, of "''far_price''", THEN conjunct2]
    by (simp add: inp)
  have bid: "col_cells (objs s' Y) ''bid_size'' = [Fin 0, Fin 3]"
    using feature_engineering_fills_every_column [OF run, of "''bid_size''", THEN conjunct2]
    by (simp add: inp)
  from run inp far bid feature_engineering_fills_every_column [OF run, THEN conjunct1]
  show ?thesis by blast
qed

section \<open>Selecting rows\<close>

lemma select_Nil [simp]: "select [] xs = []" "select m [] = []"
  by (simp_all add: select_def)

lemma select_Cons [simp]: "select (b # m) (x # xs) = (if b then x # select m xs else select m xs)"
  by (simp add: select_def)

lemma set_select: "set (select m xs) \<subseteq> set xs"
  by (auto simp: select_def dest: set_zip_rightD)

lemma select_map: "select m (map f xs) = map f (select m xs)"
proof (induction xs arbitrary: m)
  case Nil
  then show ?case by simp
next
  case (Cons x xs)
  then show ?case by (cases m) simp_all
qed

lemma select_map_key: "select (map q xs) xs = filter q xs"
  by (induction xs) simp_all

lemma select_positions:
  "length m = length xs \<Longrightarrow> select m xs = map ((!) xs) (positions m)"
proof (induction xs arbitrary: m)
  case Nil
  then show ?case by (simp add: positions_def)
next
  case (Cons x xs)
  then obtain b m' where m: "m = b # m'" and len: "length m' = length xs"
    by (cases m) auto
  have shift: "filter (\<lambda>i. (b # m') ! i) [0..<Suc (length m')] =
      (if b then [0] else []) @ map Suc (filter (\<lambda>i. m' ! i) [0..<length m'])"
    by (simp add: upt_conv_Cons map_Suc_upt [symmetric] filter_map comp_def del: upt_Suc)
  show ?case
    using Cons.IH [OF len] by (simp add: m positions_def shift comp_def del: upt_Suc)
qed

lemma positions_less: "i \<in> set (positions m) \<Longrightarrow> i < length m"
  by (simp add: positions_def)

lemma wf_take_rows:
  assumes "wf_frame F" "length m = nrows F"
  shows "wf_frame (take_rows m F)"
  using assms
  by (auto simp: wf_frame_def take_rows_def nrows_def list_all_iff select_positions)

lemma rows_take_rows:
  assumes wf: "wf_frame F" and len: "length m = nrows F"
  shows "rows (take_rows m F) = select m (rows F)"
proof -
  let ?pos = "positions m"
  have idx: "index (take_rows m F) = map ((!) (index F)) ?pos"
    using len by (simp add: take_rows_def nrows_def select_positions)
  have n': "nrows (take_rows m F) = length ?pos"
    by (simp add: nrows_def idx)
  have row: "row_at (take_rows m F) j = row_at F (?pos ! j)" if j: "j < length ?pos" for j
  proof -
    have "cells c' ! j = cells c ! (?pos ! j)"
      if "(n, c) \<in> set (columns F)" "c' = Column (dtype_of c) (select m (cells c))" for n c c'
    proof -
      from wf that have "length (cells c) = nrows F"
        by (auto simp: wf_frame_def list_all_iff)
      with len that j show ?thesis by (simp add: select_positions)
    qed
    then have "map (\<lambda>(n, c). (n, cells c ! j)) (columns (take_rows m F)) =
               map (\<lambda>(n, c). (n, cells c ! (?pos ! j))) (columns F)"
      by (auto simp: take_rows_def)
    with j show ?thesis by (simp add: row_at_def idx)
  qed
  have "rows (take_rows m F) = map (\<lambda>j. row_at F (?pos ! j)) [0..<length ?pos]"
    by (simp add: rows_def n' row)
  also have "\<dots> = map (row_at F) ?pos"
    by (intro nth_equalityI) simp_all
  also have "\<dots> = map ((!) (rows F)) ?pos"
    using len by (auto simp: rows_def dest: positions_less)
  also have "\<dots> = select m (rows F)"
    using len by (simp add: select_positions rows_def)
  finally show ?thesis .
qed

lemma rows_key:
  assumes wf: "wf_frame F" and c: "map_of (columns F) n = Some c"
  shows "map (\<lambda>r. row_cell r n) (rows F) = cells c"
proof -
  have len: "length (cells c) = nrows F"
    using wf c by (rule wf_frame_length)
  have "row_cell (row_at F i) n = cells c ! i" for i
    by (simp add: row_cell_def row_at_def map_of_map_snd c)
  then show ?thesis
    by (simp add: rows_def len [symmetric] comp_def map_nth)
qed

section \<open>Train and test split\<close>

text \<open>What a call returns: two new tables, selected from the caller's table.\<close>

lemma split_data_Inr:
  assumes run: "split_data L data n s = Inr ((train, test), s')" and alloc: "data < fresh s"
  shows "\<exists>d. map_of (columns (objs s data)) ''date_id'' = Some d \<and>
           objs s' train = take_rows (map (\<lambda>v. cell_lt v (threshold L d n)) (cells d)) (objs s data) \<and>
           objs s' test = take_rows (map (\<lambda>v. cell_ge v (threshold L d n)) (cells d)) (objs s data) \<and>
           train = fresh s \<and> test = Suc (fresh s) \<and> fresh s' = Suc (Suc (fresh s)) \<and>
           (\<forall>q. q < fresh s \<longrightarrow> objs s' q = objs s q)"
  using assms
  by (auto simp: split_data_def bind_def df_getitem_def deref_def lift_def getitem_def df_take_def
      alloc_def ret_def split: option.splits sum.splits)




text \<open>Facts that evaluate a split on a concrete table.\<close>

lemmas table_defs = rows_def row_at_def row_cell_def nrows_def wf_frame_def store_of_def
  col_cells_def take_rows_def select_def





section \<open>Outlier filter\<close>

text \<open>
  The loop reads the table it is at and allocates the next one; it writes into no table
  that exists.
\<close>

lemma remove_loop_Inr:
  assumes "remove_loop L r cols sigma s = Inr (Y, s')"
  shows "filter_steps L (objs s r) cols sigma = Inr (objs s' Y) \<and> fresh s \<le> fresh s' \<and>
         (\<forall>q. q < fresh s \<longrightarrow> objs s' q = objs s q) \<and> (Y = r \<or> fresh s \<le> Y)"
  using assms
proof (induction cols arbitrary: r s)
  case Nil
  then show ?case by (simp add: ret_def)
next
  case (Cons column rest)
  from Cons.prems obtain c where c: "map_of (columns (objs s r)) column = Some c"
    by (auto simp: bind_def df_getitem_def deref_def lift_def getitem_def split: option.splits)
  define s1 where "s1 = s\<lparr>objs := (objs s)(fresh s := take_rows (band_mask L c sigma) (objs s r)),
                          fresh := Suc (fresh s)\<rparr>"
  from Cons.prems c have loop: "remove_loop L (fresh s) rest sigma s1 = Inr (Y, s')"
    by (simp add: bind_def df_getitem_def deref_def lift_def getitem_def df_take_def alloc_def
        Let_def band_mask_def s1_def)
  from Cons.IH [OF loop] show ?case
    by (auto simp: c s1_def)
qed

lemma remove_extreme_values_Inr:
  assumes run: "remove_extreme_values L dataframe cols sigma s = Inr (Y, s')"
  shows "filter_steps L (objs s dataframe) cols sigma = Inr (objs s' Y) \<and> fresh s \<le> Y \<and>
         (\<forall>q. q < fresh s \<longrightarrow> objs s' q = objs s q)"
proof -
  define s1 where "s1 = s\<lparr>objs := (objs s)(fresh s := objs s dataframe), fresh := Suc (fresh s)\<rparr>"
  from run have loop: "remove_loop L (fresh s) cols sigma s1 = Inr (Y, s')"
    by (simp add: remove_extreme_values_def bind_def copy_def deref_def alloc_def s1_def)
  from remove_loop_Inr [OF loop] show ?thesis
    by (auto simp: s1_def)
qed

subsection \<open>The statistics\<close>

text \<open>
  What \<^verbatim>\<open>Series.mean\<close> and \<^verbatim>\<open>Series.std\<close> compute are the mean and the sample standard
  deviation of the specification, on the float64 values of the column.
\<close>

lemma fillna_cell_fun: "fillna_cell d = (\<lambda>v. if v = NaN then d else v)"
  by (simp add: fun_eq_iff fillna_cell_def isnull_def)

lemma mean_spec: "mean L c = spec_mean L (float_cells (rnd L) c)"
  by (simp add: mean_def spec_mean_def Let_def fillna_cell_fun)

lemma std_spec: "std L c = spec_std L (float_cells (rnd L) c)"
proof (cases "length (present (float_cells (rnd L) c)) < 2")
  case True
  then have "length (present (float_cells (rnd L) c)) \<le> 1"
    by simp
  with True show ?thesis
    by (simp add: std_def spec_std_def Let_def)
next
  case False
  let ?vs = "float_cells (rnd L) c"
  from False have some: "present ?vs \<noteq> []" and two: "\<not> length (present ?vs) \<le> 1"
    by auto
  from False have less: "real (length (present ?vs) - 1) = real (length (present ?vs)) - 1"
    by (simp add: of_nat_diff)
  have avg: "spec_mean L ?vs =
      cell_div (rnd L) (series_sum L (map (fillna_cell (Fin 0)) ?vs)) (Fin (real (length (present ?vs))))"
    using some by (simp add: spec_mean_def fillna_cell_fun)
  show ?thesis
    unfolding std_def spec_std_def spec_deviation_def avg Let_def
    using False two by (simp add: less isnull_def)
qed

text \<open>The mask of a pass marks the values inside the band of the specification.\<close>

lemma band_mask_spec:
  "band_mask L c sigma = map (spec_band L (float_cells (rnd L) c) sigma) (float_cells (rnd L) c)"
  by (simp add: band_mask_def spec_band_def Let_def cell_ge_def zip_map_map zip_same_conv_map
      mean_spec std_spec)

subsection \<open>The rows that stay\<close>

lemma map_of_take_rows:
  "map_of (columns (take_rows m F)) n =
     map_option (\<lambda>c. Column (dtype_of c) (select m (cells c))) (map_of (columns F) n)"
  by (simp add: take_rows_def map_of_map_snd)

text \<open>Selecting rows changes the dtype of no column.\<close>

lemma float_of_take_rows: "float_of L (take_rows m F) = float_of L F"
  by (intro ext) (simp add: float_of_def map_of_take_rows split: option.splits)

lemma float_key:
  assumes wf: "wf_frame F" and c: "map_of (columns F) n = Some c"
  shows "map (\<lambda>r. float_of L F n (row_cell r n)) (rows F) = float_cells (rnd L) c"
proof -
  have "map (\<lambda>r. float_of L F n (row_cell r n)) (rows F) =
      map (float_of L F n) (map (\<lambda>r. row_cell r n) (rows F))"
    by (simp add: comp_def)
  also have "\<dots> = map (float_of L F n) (cells c)"
    using rows_key [OF wf c] by simp
  also have "\<dots> = float_cells (rnd L) c"
    by (simp add: float_of_def [abs_def] c float_cells_def)
  finally show ?thesis .
qed

lemma filter_steps_rows:
  assumes "wf_frame F" "filter_steps L F cols sigma = Inr G"
  shows "rows G = spec_remove_extreme L (float_of L F) (rows F) cols sigma \<and> wf_frame G \<and>
         column_names G = column_names F"
  using assms
proof (induction cols arbitrary: F)
  case Nil
  then show ?case by (simp add: spec_remove_extreme_def)
next
  case (Cons column rest)
  from Cons.prems obtain c where c: "map_of (columns F) column = Some c"
    by (auto split: option.splits)
  let ?T = "take_rows (band_mask L c sigma) F"
  let ?conv = "\<lambda>r. float_of L F column (row_cell r column)"
  have len: "length (band_mask L c sigma) = nrows F"
    using wf_frame_length [OF Cons.prems(1) c] by (simp add: band_mask_spec)
  have wfT: "wf_frame ?T"
    using Cons.prems(1) len by (rule wf_take_rows)
  have key: "float_cells (rnd L) c = map ?conv (rows F)"
    using float_key [OF Cons.prems(1) c] by simp
  have "band_mask L c sigma =
      map (\<lambda>r. spec_band L (map ?conv (rows F)) sigma (?conv r)) (rows F)"
    unfolding band_mask_spec key by (simp add: comp_def)
  then have rowsT: "rows ?T = spec_filter_rows L (float_of L F) (rows F) column sigma"
    using rows_take_rows [OF Cons.prems(1) len]
    by (simp add: spec_filter_rows_def select_map_key)
  have names: "column_names ?T = column_names F"
    by (simp add: column_names_def take_rows_def comp_def case_prod_beta)
  from Cons.prems c have "filter_steps L ?T rest sigma = Inr G"
    by simp
  from Cons.IH [OF wfT this] show ?case
    by (simp add: rowsT names spec_remove_extreme_def float_of_take_rows)
qed

text \<open>
  Claim C5. For every table (one cell per row in each column), list of column names and
  sigma, when the call returns: the rows of the returned table are those the
  specification describes (the columns taken in the order given, mean and sample standard
  deviation of each computed on the rows the previous columns left, the rows inside the
  closed band kept in their order), all of it computed in float64 as the code does; the
  returned table is a new one with the columns of the given one; and the caller's table is
  as it was.
\<close>

theorem remove_extreme_values_sequential:
  assumes run: "remove_extreme_values L dataframe cols sigma s = Inr (Y, s')"
    and alloc: "dataframe < fresh s"
    and wf: "wf_frame (objs s dataframe)"
  shows "rows (objs s' Y) =
           spec_remove_extreme L (float_of L (objs s dataframe)) (rows (objs s dataframe)) cols sigma \<and>
         column_names (objs s' Y) = column_names (objs s dataframe) \<and>
         fresh s \<le> Y \<and> objs s' dataframe = objs s dataframe"
proof -
  from remove_extreme_values_Inr [OF run] have
    steps: "filter_steps L (objs s dataframe) cols sigma = Inr (objs s' Y)" and
    new: "fresh s \<le> Y" and old: "\<forall>q. q < fresh s \<longrightarrow> objs s' q = objs s q"
    by simp_all
  from filter_steps_rows [OF wf steps] new old alloc show ?thesis
    by simp
qed

text \<open>Facts that evaluate one pass of the filter on concrete rows.\<close>

lemmas filter_defs = spec_filter_rows_def spec_band_def spec_mean_def spec_std_def
  spec_deviation_def present_def isnull_def cell_sub_def row_cell_def exact_lib_def exact_sum_def
  fl_exact_small

text \<open>The call returns whenever every listed name is a column of the table.\<close>

lemma column_names_take_rows: "column_names (take_rows m F) = column_names F"
  by (simp add: column_names_def take_rows_def comp_def case_prod_beta)

lemma map_of_column_names: "n \<in> set (column_names F) \<Longrightarrow> \<exists>c. map_of (columns F) n = Some c"
  by (cases "map_of (columns F) n") (auto simp: column_names_def map_of_eq_None_iff)

lemma remove_loop_total:
  assumes "set cols \<subseteq> set (column_names (objs s r))"
  shows "\<exists>Y s'. remove_loop L r cols sigma s = Inr (Y, s')"
  using assms
proof (induction cols arbitrary: r s)
  case Nil
  then show ?case by (simp add: ret_def)
next
  case (Cons column rest)
  then have "column \<in> set (column_names (objs s r))"
    by simp
  then obtain c where c: "map_of (columns (objs s r)) column = Some c"
    using map_of_column_names by blast
  define s1 where "s1 = s\<lparr>objs := (objs s)(fresh s := take_rows (band_mask L c sigma) (objs s r)),
                          fresh := Suc (fresh s)\<rparr>"
  have step: "remove_loop L r (column # rest) sigma s = remove_loop L (fresh s) rest sigma s1"
    using c
    by (simp add: bind_def df_getitem_def deref_def lift_def getitem_def df_take_def alloc_def
        Let_def band_mask_def s1_def)
  have "set rest \<subseteq> set (column_names (objs s1 (fresh s)))"
    using Cons.prems by (simp add: s1_def column_names_take_rows)
  from Cons.IH [OF this] show ?case
    unfolding step .
qed

lemma remove_extreme_values_total:
  assumes "set cols \<subseteq> set (column_names (objs s dataframe))"
  shows "\<exists>Y s'. remove_extreme_values L dataframe cols sigma s = Inr (Y, s')"
proof -
  define s1 where "s1 = s\<lparr>objs := (objs s)(fresh s := objs s dataframe), fresh := Suc (fresh s)\<rparr>"
  have "remove_extreme_values L dataframe cols sigma s = remove_loop L (fresh s) cols sigma s1"
    by (simp add: remove_extreme_values_def bind_def copy_def deref_def alloc_def s1_def)
  moreover have "set cols \<subseteq> set (column_names (objs s1 (fresh s)))"
    using assms by (simp add: s1_def)
  ultimately show ?thesis
    using remove_loop_total by simp
qed

text \<open>
  Claim C5 on a table of five rows, filtered on \<^verbatim>\<open>x\<close> then \<^verbatim>\<open>y\<close> with sigma one
  half. On \<^verbatim>\<open>x\<close> (0, 0, 0, 4, missing: mean 1, sample deviation 2) the band is
  \<open>[0, 2]\<close> and the first three rows stay; on the \<^verbatim>\<open>y\<close> of these rows (0, 4, 2: mean 2,
  sample deviation 2) the band is \<open>[1, 3]\<close> and the third row stays. With the deviation
  of the whole population in place of the sample deviation (\<open>\<surd>3\<close> on \<^verbatim>\<open>x\<close>) the first
  pass would keep no row.
\<close>

theorem remove_extreme_values_sequential_witness:
  "\<exists>Y s'. remove_extreme_values exact_lib 0 [''x'', ''y''] (1 / 2) (store_of band_table) = Inr (Y, s') \<and>
     0 < fresh (store_of band_table) \<and> wf_frame (objs (store_of band_table) 0) \<and>
     spec_mean exact_lib [Fin 0, Fin 0, Fin 0, Fin 4, NaN] = Fin 1 \<and>
     spec_std exact_lib [Fin 0, Fin 0, Fin 0, Fin 4, NaN] = Fin 2 \<and>
     rows (objs s' Y) = [(12, [(''x'', Fin 0), (''y'', Fin 2)])] \<and>
     column_names (objs s' Y) = [''x'', ''y''] \<and> 1 \<le> Y \<and> objs s' 0 = band_table"
proof -
  let ?F = "objs (store_of band_table) 0"
  have "set [''x'', ''y''] \<subseteq> set (column_names ?F)"
    by (simp add: column_names_def store_of_def band_table_def)
  from remove_extreme_values_total [OF this] obtain Y s' where
    run: "remove_extreme_values exact_lib 0 [''x'', ''y''] (1 / 2) (store_of band_table) = Inr (Y, s')"
    by blast
  have alloc: "0 < fresh (store_of band_table)"
    by (simp add: store_of_def)
  have wf: "wf_frame ?F"
    by (simp add: table_defs band_table_def)
  have stat: "spec_mean exact_lib [Fin 0, Fin 0, Fin 0, Fin 4, NaN] = Fin 1"
    "spec_std exact_lib [Fin 0, Fin 0, Fin 0, Fin 4, NaN] = Fin 2"
    by (simp_all add: filter_defs)
  have conv: "float_of exact_lib ?F = (\<lambda>n v. v)"
    by (intro ext) (simp add: float_of_def store_of_def band_table_def)
  have inp: "rows ?F =
      [(10, [(''x'', Fin 0), (''y'', Fin 0)]), (11, [(''x'', Fin 0), (''y'', Fin 4)]),
       (12, [(''x'', Fin 0), (''y'', Fin 2)]), (13, [(''x'', Fin 4), (''y'', Fin 1000)]),
       (14, [(''x'', NaN), (''y'', Fin 7)])]"
    by (simp add: table_defs band_table_def upt_rec)
  have x: "spec_filter_rows exact_lib (\<lambda>n v. v)
      [(10, [(''x'', Fin 0), (''y'', Fin 0)]), (11, [(''x'', Fin 0), (''y'', Fin 4)]),
       (12, [(''x'', Fin 0), (''y'', Fin 2)]), (13, [(''x'', Fin 4), (''y'', Fin 1000)]),
       (14, [(''x'', NaN), (''y'', Fin 7)])] ''x'' (1 / 2) =
      [(10, [(''x'', Fin 0), (''y'', Fin 0)]), (11, [(''x'', Fin 0), (''y'', Fin 4)]),
       (12, [(''x'', Fin 0), (''y'', Fin 2)])]"
    by (simp add: filter_defs)
  have y: "spec_filter_rows exact_lib (\<lambda>n v. v)
       [(10, [(''x'', Fin 0), (''y'', Fin 0)]), (11, [(''x'', Fin 0), (''y'', Fin 4)]),
        (12, [(''x'', Fin 0), (''y'', Fin 2)])] ''y'' (1 / 2) = [(12, [(''x'', Fin 0), (''y'', Fin 2)])]"
    by (simp add: filter_defs)
  have spec: "spec_remove_extreme exact_lib (float_of exact_lib ?F) (rows ?F) [''x'', ''y''] (1 / 2) =
      [(12, [(''x'', Fin 0), (''y'', Fin 2)])]"
    unfolding conv inp by (simp add: spec_remove_extreme_def x y)
  have names: "column_names ?F = [''x'', ''y'']"
    by (simp add: column_names_def store_of_def band_table_def)
  note seq = remove_extreme_values_sequential [OF run alloc wf]
  have r: "rows (objs s' Y) = [(12, [(''x'', Fin 0), (''y'', Fin 2)])]"
    using seq spec by simp
  have nm: "column_names (objs s' Y) = [''x'', ''y'']"
    using seq names by simp
  have new: "1 \<le> Y"
    using seq by (simp add: store_of_def)
  have same: "objs s' 0 = band_table"
    using seq by (simp add: store_of_def)
  from run alloc wf stat r nm new same show ?thesis
    by (intro exI conjI)
qed

subsection \<open>Missing values in a filtered column\<close>

lemma spec_band_present: "spec_band L vs sigma v \<Longrightarrow> v \<noteq> NaN"
  by (auto simp: spec_band_def)

lemma float_of_present: "float_of L F n v \<noteq> NaN \<Longrightarrow> v \<noteq> NaN"
  by (auto simp: float_of_def split: option.splits if_splits)

lemma spec_remove_extreme_subset: "set (spec_remove_extreme L conv R cols sigma) \<subseteq> set R"
proof (induction cols arbitrary: R)
  case Nil
  then show ?case by (simp add: spec_remove_extreme_def)
next
  case (Cons column rest)
  have "set (spec_remove_extreme L conv R (column # rest) sigma) \<subseteq>
      set (spec_filter_rows L conv R column sigma)"
    using Cons.IH [of "spec_filter_rows L conv R column sigma"] by (simp add: spec_remove_extreme_def)
  then show ?case by (auto simp: spec_filter_rows_def)
qed

lemma spec_remove_extreme_present:
  "r \<in> set (spec_remove_extreme L conv R cols sigma) \<Longrightarrow> column \<in> set cols \<Longrightarrow>
   conv column (row_cell r column) \<noteq> NaN"
proof (induction cols arbitrary: R)
  case Nil
  then show ?case by simp
next
  case (Cons c rest)
  let ?R' = "spec_filter_rows L conv R c sigma"
  have step: "spec_remove_extreme L conv R (c # rest) sigma = spec_remove_extreme L conv ?R' rest sigma"
    by (simp add: spec_remove_extreme_def)
  show ?case
  proof (cases "column = c")
    case True
    from Cons.prems(1) have "r \<in> set ?R'"
      unfolding step using spec_remove_extreme_subset by blast
    then show ?thesis
      unfolding True by (auto simp: spec_filter_rows_def dest: spec_band_present)
  next
    case False
    with Cons.prems(2) have "column \<in> set rest" by simp
    with Cons.IH [of ?R'] Cons.prems(1) show ?thesis
      unfolding step by blast
  qed
qed

text \<open>
  Claim C10. For every table (one cell per row in each column), list of column names and
  sigma, when the call returns: every row of the returned table is a row of the given
  table, and none of them has a missing value in a listed column.
\<close>

theorem remove_extreme_values_drops_missing:
  assumes run: "remove_extreme_values L dataframe cols sigma s = Inr (Y, s')"
    and wf: "wf_frame (objs s dataframe)"
  shows "set (rows (objs s' Y)) \<subseteq> set (rows (objs s dataframe)) \<and>
         (\<forall>r \<in> set (rows (objs s' Y)). \<forall>column \<in> set cols. row_cell r column \<noteq> NaN)"
proof -
  from remove_extreme_values_Inr [OF run] have
    "filter_steps L (objs s dataframe) cols sigma = Inr (objs s' Y)"
    by simp
  from filter_steps_rows [OF wf this] have
    "rows (objs s' Y) =
       spec_remove_extreme L (float_of L (objs s dataframe)) (rows (objs s dataframe)) cols sigma"
    by simp
  then show ?thesis
    using spec_remove_extreme_subset spec_remove_extreme_present float_of_present
    by (metis subsetI subsetD)
qed

text \<open>
  Claim C10 on a table with a missing \<^verbatim>\<open>x\<close> in the last row and a missing \<^verbatim>\<open>y\<close> in
  the row before it, filtered with sigma 1000.
\<close>

theorem remove_extreme_values_drops_missing_witness:
  "\<exists>Y s'. remove_extreme_values exact_lib 0 [''x'', ''y''] 1000 (store_of missing_table) = Inr (Y, s') \<and>
     wf_frame (objs (store_of missing_table) 0) \<and>
     map (\<lambda>r. row_cell r ''x'') (rows (objs (store_of missing_table) 0)) =
       [Fin 0, Fin 0, Fin 0, Fin 4, NaN] \<and>
     map (\<lambda>r. row_cell r ''y'') (rows (objs (store_of missing_table) 0)) =
       [Fin 0, Fin 4, Fin 2, NaN, Fin 7] \<and>
     set (rows (objs s' Y)) \<subseteq> set (rows (objs (store_of missing_table) 0)) \<and>
     (\<forall>r \<in> set (rows (objs s' Y)). row_cell r ''x'' \<noteq> NaN \<and> row_cell r ''y'' \<noteq> NaN)"
proof -
  have "set [''x'', ''y''] \<subseteq> set (column_names (objs (store_of missing_table) 0))"
    by (simp add: column_names_def store_of_def missing_table_def)
  from remove_extreme_values_total [OF this] obtain Y s' where
    run: "remove_extreme_values exact_lib 0 [''x'', ''y''] 1000 (store_of missing_table) = Inr (Y, s')"
    by blast
  have wf: "wf_frame (objs (store_of missing_table) 0)"
    by (simp add: table_defs missing_table_def)
  have inp:
    "map (\<lambda>r. row_cell r ''x'') (rows (objs (store_of missing_table) 0)) =
       [Fin 0, Fin 0, Fin 0, Fin 4, NaN]"
    "map (\<lambda>r. row_cell r ''y'') (rows (objs (store_of missing_table) 0)) =
       [Fin 0, Fin 4, Fin 2, NaN, Fin 7]"
    by (simp_all add: table_defs missing_table_def upt_rec)
  from remove_extreme_values_drops_missing [OF run wf] have
    "set (rows (objs s' Y)) \<subseteq> set (rows (objs (store_of missing_table) 0))"
    "\<forall>r \<in> set (rows (objs s' Y)). row_cell r ''x'' \<noteq> NaN \<and> row_cell r ''y'' \<noteq> NaN"
    by simp_all
  with run wf inp show ?thesis by (intro exI conjI)
qed

section \<open>Preprocessing\<close>

lemmas prog_defs = bind_def deref_def lift_def alloc_def modify_def ret_def df_getitem_def
  df_setitem_def df_take_def df_dropna_def pd_get_dummies_def df_rename_def copy_def

lemma store_objs_cong: "f = g \<Longrightarrow> s\<lparr>objs := f\<rparr> = s\<lparr>objs := g\<rparr>"
  by simp

lemma fill_medians_run:
  "fill_medians L data cs s =
     (case fill_medians_frame L (objs s data) cs of
        Inl e \<Rightarrow> Inl e
      | Inr G \<Rightarrow> Inr ((), s\<lparr>objs := (objs s)(data := G)\<rparr>))"
proof (induction cs arbitrary: s)
  case Nil
  then show ?case by (simp add: ret_def)
next
  case (Cons column rest)
  show ?case
  proof (cases "map_of (columns (objs s data)) column")
    case None
    then show ?thesis
      by (simp add: prog_defs getitem_def)
  next
    case (Some c)
    let ?F = "setitem (objs s data) column (fillna (median L (cells c)) c)"
    have step: "fill_medians L data (column # rest) s =
        fill_medians L data rest (s\<lparr>objs := (objs s)(data := ?F)\<rparr>)"
      by (simp add: prog_defs getitem_def Some Let_def)
    show ?thesis
      unfolding step Cons.IH
      by (auto simp: Some fun_upd_def split: sum.splits intro!: store_objs_cong)
  qed
qed

text \<open>
  Without \<^verbatim>\<open>remove_missing\<close> the call leaves the imputed table in the caller's
  object and returns a new table, encoded from it.
\<close>

lemma data_preprocessing_False_Inr:
  assumes "data_preprocessing L data False s = Inr (Y, s')"
  shows "\<exists>G E. impute L (objs s data) = Inr G \<and> encode L G = Inr E \<and>
           (data < fresh s \<longrightarrow> objs s' Y = E \<and> objs s' data = G \<and> fresh s \<le> Y)"
  using assms
  unfolding data_preprocessing_def impute_def encode_def
  by (auto simp: prog_defs getitem_def fill_medians_run Let_def split: option.splits sum.splits)

text \<open>
  With \<^verbatim>\<open>remove_missing\<close> the call writes into no table that exists and returns a new
  table, encoded from the rows without a missing value.
\<close>

lemma data_preprocessing_True_Inr:
  assumes "data_preprocessing L data True s = Inr (Y, s')"
  shows "encode L (take_rows (notna_mask (objs s data)) (objs s data)) = Inr (objs s' Y) \<and>
         fresh s \<le> Y \<and> (\<forall>q. q < fresh s \<longrightarrow> objs s' q = objs s q)"
  using assms
  unfolding data_preprocessing_def encode_def
  by (auto simp: prog_defs split: option.splits sum.splits)

text \<open>Facts that evaluate preprocessing on a concrete table.\<close>

lemmas preprocessing_defs = data_preprocessing_def prog_defs getitem_def setitem_def fillna_def
  fillna_cell_def isnull_def columns_with_missing_def get_dummies_def rename_columns_def
  rename_one_def levels_def present_def sort_cells_def indicator_def level_label_def str_int_def
  digit_char_def store_of_def col_cells_def exact_lib_def any_repr_def fl_exact_small

subsection \<open>The caller's table\<close>

text \<open>
  Claim C6 fails on the code, and the code is at fault. \<^verbatim>\<open>feature_engineering\<close> and
  \<^verbatim>\<open>remove_extreme_values\<close> copy their argument first, each with a comment that the
  original must not change, and the branch of \<^verbatim>\<open>data_preprocessing\<close> with
  \<^verbatim>\<open>remove_missing\<close> rebinds its local name to a new table. The branch without it
  assigns into the table object it was given: after the call the caller's
  \<^verbatim>\<open>far_price\<close>, missing in the first row before the call, holds 0 there.
\<close>

theorem data_preprocessing_writes_callers_table:
  "col_cells (objs (store_of caller_table) 0) ''far_price'' = [NaN, Fin 2] \<and>
   callers_cells (data_preprocessing exact_lib 0 False) 0 (store_of caller_table) ''far_price'' =
     Some [Fin 0, Fin 2]"
  by (simp add: callers_cells_def preprocessing_defs caller_table_def)

text \<open>The other three functions, and the other branch, leave every existing table as it was.\<close>

lemma feature_engineering_keeps_tables:
  "feature_engineering L X s = Inr (Y, s') \<Longrightarrow> q < fresh s \<Longrightarrow> objs s' q = objs s q"
  by (auto simp: feature_engineering_engineer split: sum.splits)

lemma remove_extreme_values_keeps_tables:
  "remove_extreme_values L dataframe cols sigma s = Inr (Y, s') \<Longrightarrow> q < fresh s \<Longrightarrow>
   objs s' q = objs s q"
  using remove_extreme_values_Inr by blast

lemma split_data_keeps_tables:
  "split_data L data n s = Inr ((train, test), s') \<Longrightarrow> data < fresh s \<Longrightarrow> q < fresh s \<Longrightarrow>
   objs s' q = objs s q"
  using split_data_Inr by blast

lemma data_preprocessing_True_keeps_tables:
  "data_preprocessing L data True s = Inr (Y, s') \<Longrightarrow> q < fresh s \<Longrightarrow>
   objs s' q = objs s q"
  using data_preprocessing_True_Inr by blast

subsection \<open>Imputation\<close>

lemma assign_existing:
  "distinct (map fst ps) \<Longrightarrow> map_of ps n = Some c0 \<Longrightarrow>
   assign n c ps = map (\<lambda>(m, d). (m, if m = n then c else d)) ps"
proof (induction ps)
  case Nil
  then show ?case by simp
next
  case (Cons p ps)
  obtain m d where p: "p = (m, d)" by (cases p)
  show ?case
  proof (cases "m = n")
    case True
    with Cons.prems p have "n \<notin> fst ` set ps" by auto
    then have "map (\<lambda>(m, d). (m, if m = n then c else d)) ps = ps"
      by (intro map_idI) force
    with True p show ?thesis by simp
  next
    case False
    with Cons p show ?thesis by simp
  qed
qed

lemma map_of_distinct_in:
  "distinct (map fst ps) \<Longrightarrow> (n, c) \<in> set ps \<Longrightarrow> map_of ps n = Some c"
  by simp

lemma fill_medians_frame_columns:
  assumes "fill_medians_frame L F cs = Inr G" "distinct (column_names F)" "distinct cs"
  shows "index G = index F \<and>
         columns G =
           map (\<lambda>(m, d). (m, if m \<in> set cs then fillna (median L (cells d)) d else d)) (columns F)"
  using assms
proof (induction cs arbitrary: F)
  case Nil
  then show ?case by (simp add: case_prod_beta)
next
  case (Cons column rest)
  from Cons.prems(1) obtain c where c: "map_of (columns F) column = Some c"
    by (auto split: option.splits)
  let ?g = "\<lambda>d. fillna (median L (cells d)) d"
  let ?F = "setitem F column (?g c)"
  have dist: "distinct (map fst (columns F))"
    using Cons.prems(2) by (simp add: column_names_def)
  have "columns ?F = map (\<lambda>(m, d). (m, if m = column then ?g c else d)) (columns F)"
    using assign_existing [OF dist c] by (simp add: setitem_def)
  also have "\<dots> = map (\<lambda>(m, d). (m, if m = column then ?g d else d)) (columns F)"
  proof (intro map_cong refl)
    fix p assume p: "p \<in> set (columns F)"
    obtain m d where md: "p = (m, d)" by (cases p)
    have "d = c" if "m = column"
      using map_of_distinct_in [OF dist p [unfolded md]] that c by simp
    then show "(case p of (m, d) \<Rightarrow> (m, if m = column then ?g c else d)) =
               (case p of (m, d) \<Rightarrow> (m, if m = column then ?g d else d))"
      by (simp add: md)
  qed
  finally have colsF: "columns ?F = map (\<lambda>(m, d). (m, if m = column then ?g d else d)) (columns F)" .
  have names: "column_names ?F = column_names F"
    by (simp add: column_names_def colsF comp_def case_prod_beta)
  from Cons.prems(1) c have run: "fill_medians_frame L ?F rest = Inr G"
    by simp
  from Cons.IH [OF run] Cons.prems names have
    idx: "index G = index ?F" and
    cols: "columns G = map (\<lambda>(m, d). (m, if m \<in> set rest then ?g d else d)) (columns ?F)"
    by simp_all
  have "columns G =
      map (\<lambda>(m, d). (m, if m \<in> set (column # rest) then ?g d else d)) (columns F)"
    unfolding cols colsF using Cons.prems(3)
    by (auto simp: case_prod_beta)
  with idx show ?case by (simp add: setitem_def)
qed

lemma setitem_existing:
  assumes dist: "distinct (column_names F)" and c: "map_of (columns F) n = Some c"
  shows "columns (setitem F n (f c)) = map (\<lambda>(m, d). (m, if m = n then f d else d)) (columns F)"
    and "column_names (setitem F n (f c)) = column_names F"
proof -
  have dist': "distinct (map fst (columns F))"
    using dist by (simp add: column_names_def)
  have "columns (setitem F n (f c)) = map (\<lambda>(m, d). (m, if m = n then f c else d)) (columns F)"
    using assign_existing [OF dist' c] by (simp add: setitem_def)
  also have "\<dots> = map (\<lambda>(m, d). (m, if m = n then f d else d)) (columns F)"
  proof (intro map_cong refl)
    fix p assume p: "p \<in> set (columns F)"
    obtain m d where md: "p = (m, d)" by (cases p)
    have "d = c" if "m = n"
      using map_of_distinct_in [OF dist' p [unfolded md]] that c by simp
    then show "(case p of (m, d) \<Rightarrow> (m, if m = n then f c else d)) =
               (case p of (m, d) \<Rightarrow> (m, if m = n then f d else d))"
      by (simp add: md)
  qed
  finally show cols: "columns (setitem F n (f c)) =
      map (\<lambda>(m, d). (m, if m = n then f d else d)) (columns F)" .
  show "column_names (setitem F n (f c)) = column_names F"
    by (simp add: column_names_def cols comp_def case_prod_beta)
qed

lemma fillna_no_missing: "d \<noteq> NaN \<Longrightarrow> NaN \<notin> set (cells (fillna d c))"
  by (auto simp: fillna_def fillna_cell_def isnull_def)

lemma in_columns_with_missing:
  assumes "distinct (column_names F)" "(m, d) \<in> set (columns F)"
  shows "m \<in> set (columns_with_missing F) \<longleftrightarrow> NaN \<in> set (cells d)"
proof -
  have dist: "distinct (map fst (columns F))"
    using assms(1) by (simp add: column_names_def)
  have "d' = d" if "(m, d') \<in> set (columns F)" for d'
    using map_of_distinct_in [OF dist that] map_of_distinct_in [OF dist assms(2)] by simp
  then have same: "(\<exists>d'. (m, d') \<in> set (columns F) \<and> NaN \<in> set (cells d')) \<longleftrightarrow>
      NaN \<in> set (cells d)"
    using assms(2) by blast
  have "m \<in> set (columns_with_missing F) \<longleftrightarrow>
      (\<exists>d'. (m, d') \<in> set (columns F) \<and> NaN \<in> set (cells d'))"
    by (force simp: columns_with_missing_def list_ex_iff isnull_def)
  with same show ?thesis by simp
qed

lemma distinct_columns_with_missing:
  "distinct (column_names F) \<Longrightarrow> distinct (columns_with_missing F)"
  by (simp add: columns_with_missing_def column_names_def distinct_map_filter)

text \<open>
  With pairwise different column names, the table left in the caller's object is the given
  table with every column filled by its value: the loop over the columns that hold a
  missing value amounts to filling every column, since a fill changes no column without one.
\<close>

lemma impute_columns:
  assumes run: "impute L F = Inr G" and dist: "distinct (column_names F)"
  shows "index G = index F \<and>
         columns G = map (\<lambda>(n, c). (n, fillna (fill_value L n c) c)) (columns F)"
proof -
  from run obtain fp where fp: "map_of (columns F) ''far_price'' = Some fp"
    by (auto simp: impute_def getitem_def split: option.splits)
  let ?F1 = "setitem F ''far_price'' (fillna (Fin 0) fp)"
  have cols1: "columns ?F1 =
      map (\<lambda>(m, d). (m, if m = ''far_price'' then fillna (Fin 0) d else d)) (columns F)"
    and names1: "column_names ?F1 = column_names F"
    using setitem_existing [OF dist fp, of "fillna (Fin 0)"] by simp_all
  from run fp obtain np where np: "map_of (columns ?F1) ''near_price'' = Some np"
    by (auto simp: impute_def getitem_def Let_def split: option.splits)
  let ?F2 = "setitem ?F1 ''near_price'' (fillna (Fin 0) np)"
  have dist1: "distinct (column_names ?F1)"
    using dist names1 by simp
  have cols2: "columns ?F2 =
      map (\<lambda>(m, d). (m, if m = ''near_price'' then fillna (Fin 0) d else d)) (columns ?F1)"
    and names2: "column_names ?F2 = column_names ?F1"
    using setitem_existing [OF dist1 np, of "fillna (Fin 0)"] by simp_all
  have dist2: "distinct (column_names ?F2)"
    using dist1 names2 by simp
  from run fp np have loop: "fill_medians_frame L ?F2 (columns_with_missing ?F2) = Inr G"
    by (simp add: impute_def getitem_def Let_def)
  let ?g = "\<lambda>d. fillna (median L (cells d)) d"
  from fill_medians_frame_columns [OF loop dist2 distinct_columns_with_missing [OF dist2]]
  have idx: "index G = index ?F2"
    and colsG: "columns G =
      map (\<lambda>(m, d). (m, if m \<in> set (columns_with_missing ?F2) then ?g d else d)) (columns ?F2)"
    by simp_all
  have "columns G = map (\<lambda>(m, d). (m, ?g d)) (columns ?F2)"
    unfolding colsG
  proof (intro map_cong refl)
    fix p assume p: "p \<in> set (columns ?F2)"
    obtain m d where md: "p = (m, d)" by (cases p)
    have "?g d = d" if "m \<notin> set (columns_with_missing ?F2)"
      using in_columns_with_missing [OF dist2 p [unfolded md]] that by (simp add: fillna_id)
    then show "(case p of (m, d) \<Rightarrow> (m, if m \<in> set (columns_with_missing ?F2) then ?g d else d)) =
               (case p of (m, d) \<Rightarrow> (m, ?g d))"
      by (auto simp: md)
  qed
  also have "\<dots> = map (\<lambda>(n, c). (n, fillna (fill_value L n c) c)) (columns F)"
    unfolding cols2 cols1
    by (auto simp: fill_value_def fillna_id fillna_no_missing)
  finally have "columns G = map (\<lambda>(n, c). (n, fillna (fill_value L n c) c)) (columns F)" .
  moreover have "index G = index F"
    using idx by (simp add: setitem_def)
  ultimately show ?thesis by simp
qed

subsection \<open>Encoding\<close>

lemma encode_Inr:
  assumes "encode L F = Inr E"
  shows "\<exists>c. map_of (columns F) ''imbalance_buy_sell_flag'' = Some c \<and> index E = index F \<and>
           columns E =
             map (\<lambda>(n, d). (rename_one ''imbalance_flag_-1'' ''imbalance_flag_neg_1'' n, d))
                 (filter (\<lambda>(n, d). n \<noteq> ''imbalance_buy_sell_flag'') (columns F)) @
             map (\<lambda>l. (rename_one ''imbalance_flag_-1'' ''imbalance_flag_neg_1''
                          (''imbalance_flag'' @ ''_'' @ level_label L (dtype_of c) l),
                        indicator (cells c) l))
                 (levels (cells c))"
  using assms
  by (auto simp: encode_def get_dummies_def rename_columns_def comp_def split: option.splits)

lemma indicator_no_missing: "NaN \<notin> set (cells (indicator vs l))"
  by (auto simp: indicator_def)

subsection \<open>Missing values after preprocessing\<close>

text \<open>
  Claim C2 as stated fails, and so does the reading that a column with a non-missing value
  is always filled. The fill value of any other column is the median that pandas computes
  for it, and that median can itself be NaN. In the table below \<^verbatim>\<open>wap\<close> has no value at
  all, and \<^verbatim>\<open>bid_size\<close> has the two values \<open>-\<infinity>\<close> and \<open>+\<infinity>\<close>, whose mean, the
  median of an even number of values, is NaN. Both columns come back as they were, so the
  returned table holds missing values.
\<close>

theorem data_preprocessing_imputes_counterexample:
  "col_cells (objs (store_of median_counter_table) 0) ''wap'' = [NaN, NaN, NaN] \<and>
   col_cells (objs (store_of median_counter_table) 0) ''bid_size'' = [NaN, NInf, PInf] \<and>
   median exact_lib [NaN, NaN, NaN] = NaN \<and>
   median exact_lib [NaN, NInf, PInf] = NaN \<and>
   returned_cells (data_preprocessing exact_lib 0 False) (store_of median_counter_table) ''wap'' =
     Some [NaN, NaN, NaN] \<and>
   returned_cells (data_preprocessing exact_lib 0 False) (store_of median_counter_table) ''bid_size'' =
     Some [NaN, NInf, PInf]"
  by (simp add: returned_cells_def preprocessing_defs median_counter_table_def median_def)

text \<open>
  Claim C2, amended. For every table with pairwise different column names, held in an
  allocated object, when \<^verbatim>\<open>data_preprocessing\<close> without \<^verbatim>\<open>remove_missing\<close> returns:
  the returned table has the columns of the given one other than
  \<^verbatim>\<open>imbalance_buy_sell_flag\<close>, in their order, each with its missing entries replaced
  by 0 for \<^verbatim>\<open>far_price\<close> and \<^verbatim>\<open>near_price\<close> and by the median that pandas computes for
  that column otherwise, followed by the indicator columns, which hold no missing value.
  The returned table holds no missing value at all provided that the median of every
  other column with a missing entry is not NaN. Having a non-missing value is not enough
  for that: the median of a column is NaN when all its entries are missing, and also when
  its two middle values are \<open>-\<infinity>\<close> and \<open>+\<infinity>\<close>.
\<close>

theorem data_preprocessing_imputes:
  assumes run: "data_preprocessing L data False s = Inr (Y, s')"
    and alloc: "data < fresh s"
    and dist: "distinct (column_names (objs s data))"
  shows "(\<exists>ind. columns (objs s' Y) =
            map (\<lambda>(n, c). (rename_one ''imbalance_flag_-1'' ''imbalance_flag_neg_1'' n,
                            fillna (fill_value L n c) c))
                (filter (\<lambda>(n, c). n \<noteq> ''imbalance_buy_sell_flag'') (columns (objs s data))) @ ind \<and>
            (\<forall>(n, c) \<in> set ind. NaN \<notin> set (cells c))) \<and>
         ((\<forall>(n, c) \<in> set (columns (objs s data)).
             n \<noteq> ''far_price'' \<and> n \<noteq> ''near_price'' \<and> n \<noteq> ''imbalance_buy_sell_flag'' \<and>
             NaN \<in> set (cells c) \<longrightarrow> median L (cells c) \<noteq> NaN)
          \<longrightarrow> (\<forall>(n, c) \<in> set (columns (objs s' Y)). NaN \<notin> set (cells c)))"
proof -
  let ?F = "objs s data"
  let ?r = "rename_one ''imbalance_flag_-1'' ''imbalance_flag_neg_1''"
  from data_preprocessing_False_Inr [OF run] alloc obtain G where
    G: "impute L ?F = Inr G" and E: "encode L G = Inr (objs s' Y)"
    by auto
  from impute_columns [OF G dist] have
    colsG: "columns G = map (\<lambda>(n, c). (n, fillna (fill_value L n c) c)) (columns ?F)"
    by simp
  from encode_Inr [OF E] obtain fc where
    colsE: "columns (objs s' Y) =
      map (\<lambda>(n, d). (?r n, d)) (filter (\<lambda>(n, d). n \<noteq> ''imbalance_buy_sell_flag'') (columns G)) @
      map (\<lambda>l. (?r (''imbalance_flag'' @ ''_'' @ level_label L (dtype_of fc) l),
                 indicator (cells fc) l))
          (levels (cells fc))"
    by blast
  define ind where "ind =
      map (\<lambda>l. (?r (''imbalance_flag'' @ ''_'' @ level_label L (dtype_of fc) l),
                 indicator (cells fc) l))
          (levels (cells fc))"
  have pre: "map (\<lambda>(n, d). (?r n, d)) (filter (\<lambda>(n, d). n \<noteq> ''imbalance_buy_sell_flag'') (columns G)) =
      map (\<lambda>(n, c). (?r n, fillna (fill_value L n c) c))
          (filter (\<lambda>(n, c). n \<noteq> ''imbalance_buy_sell_flag'') (columns ?F))"
    unfolding colsG by (induction "columns ?F") (auto simp: filter_map comp_def case_prod_beta)
  have cols: "columns (objs s' Y) =
      map (\<lambda>(n, c). (?r n, fillna (fill_value L n c) c))
          (filter (\<lambda>(n, c). n \<noteq> ''imbalance_buy_sell_flag'') (columns ?F)) @ ind"
    unfolding colsE pre ind_def ..
  have indok: "\<forall>(n, c) \<in> set ind. NaN \<notin> set (cells c)"
    by (auto simp: ind_def indicator_no_missing)
  have full: "\<forall>(n, c) \<in> set (columns (objs s' Y)). NaN \<notin> set (cells c)"
    if med: "\<forall>(n, c) \<in> set (columns ?F).
             n \<noteq> ''far_price'' \<and> n \<noteq> ''near_price'' \<and> n \<noteq> ''imbalance_buy_sell_flag'' \<and>
             NaN \<in> set (cells c) \<longrightarrow> median L (cells c) \<noteq> NaN"
  proof -
    have "NaN \<notin> set (cells (fillna (fill_value L n c) c))"
      if nc: "(n, c) \<in> set (columns ?F)" "n \<noteq> ''imbalance_buy_sell_flag''" for n c
    proof (cases "NaN \<in> set (cells c)")
      case False
      then show ?thesis by (simp add: fillna_id)
    next
      case True
      with med nc have "fill_value L n c \<noteq> NaN"
        by (auto simp: fill_value_def)
      then show ?thesis by (rule fillna_no_missing)
    qed
    with indok show ?thesis
      unfolding cols by auto
  qed
  from cols indok full show ?thesis by blast
qed

text \<open>A column with a non-missing value and no infinity has a median.\<close>

lemma set_insert_cell: "set (insert_cell x xs) = insert x (set xs)"
  by (induction xs) auto

lemma length_insert_cell: "length (insert_cell x xs) = Suc (length xs)"
  by (induction xs) auto

lemma set_sort_cells: "set (sort_cells xs) = set xs"
  by (induction xs) (simp_all add: sort_cells_def set_insert_cell)

lemma length_sort_cells: "length (sort_cells xs) = length xs"
  by (induction xs) (simp_all add: sort_cells_def length_insert_cell)

lemma half_defined: "cell_div r (fl r v) (Fin 2) \<noteq> NaN"
  by (simp add: fl_def)

lemma median_defined:
  assumes some: "\<exists>v \<in> set vs. v \<noteq> NaN" and fin: "\<forall>v \<in> set vs. \<not> is_inf v"
  shows "median L vs \<noteq> NaN"
proof -
  let ?xs = "sort_cells (present vs)"
  have elems: "\<exists>x. v = Fin x" if "v \<in> set ?xs" for v
  proof -
    from that have "v \<in> set vs" "v \<noteq> NaN"
      by (simp_all add: set_sort_cells present_def isnull_def)
    with fin show ?thesis by (cases v) auto
  qed
  have pos: "0 < length ?xs"
    using some by (auto simp: length_sort_cells present_def isnull_def filter_empty_conv)
  have nth: "\<exists>x. ?xs ! i = Fin x" if "i < length ?xs" for i
    using that elems by simp
  show ?thesis
  proof (cases "odd (length ?xs)")
    case True
    with nth [of "length ?xs div 2"] pos show ?thesis
      by (auto simp: median_def Let_def)
  next
    case False
    from pos have half: "length ?xs div 2 < length ?xs"
      by simp
    then have "length ?xs div 2 - 1 < length ?xs"
      by (rule less_imp_diff_less)
    note this half
    with nth obtain x y where "?xs ! (length ?xs div 2 - 1) = Fin x" "?xs ! (length ?xs div 2) = Fin y"
      by blast
    with False pos show ?thesis
      by (simp add: median_def Let_def half_defined)
  qed
qed

subsection \<open>Preprocessing returns\<close>

text \<open>
  The call returns whenever the columns it names exist: \<^verbatim>\<open>imbalance_buy_sell_flag\<close>,
  and without \<^verbatim>\<open>remove_missing\<close> also \<^verbatim>\<open>far_price\<close> and \<^verbatim>\<open>near_price\<close>.
\<close>

lemma assign_names: "map_of ps n = Some c0 \<Longrightarrow> map fst (assign n c ps) = map fst ps"
  by (induction ps) (auto split: if_splits)

lemma setitem_names:
  "map_of (columns F) n = Some c0 \<Longrightarrow> column_names (setitem F n c) = column_names F"
  by (simp add: column_names_def setitem_def assign_names)

lemma fill_medians_frame_total:
  assumes "set cs \<subseteq> set (column_names F)"
  shows "\<exists>G. fill_medians_frame L F cs = Inr G \<and> column_names G = column_names F"
  using assms
proof (induction cs arbitrary: F)
  case Nil
  then show ?case by simp
next
  case (Cons column rest)
  then have "column \<in> set (column_names F)"
    by simp
  then obtain c where c: "map_of (columns F) column = Some c"
    using map_of_column_names by blast
  let ?F = "setitem F column (fillna (median L (cells c)) c)"
  have names: "column_names ?F = column_names F"
    using c by (rule setitem_names)
  with Cons.prems have "set rest \<subseteq> set (column_names ?F)"
    by simp
  from Cons.IH [OF this] names c show ?case
    by simp
qed

lemma columns_with_missing_names: "set (columns_with_missing F) \<subseteq> set (column_names F)"
  by (auto simp: columns_with_missing_def column_names_def)

lemma impute_total:
  assumes "''far_price'' \<in> set (column_names F)" "''near_price'' \<in> set (column_names F)"
  shows "\<exists>G. impute L F = Inr G \<and> column_names G = column_names F"
proof -
  from assms(1) obtain fp where fp: "map_of (columns F) ''far_price'' = Some fp"
    using map_of_column_names by blast
  let ?F1 = "setitem F ''far_price'' (fillna (Fin 0) fp)"
  have names1: "column_names ?F1 = column_names F"
    using fp by (rule setitem_names)
  with assms(2) obtain np where np: "map_of (columns ?F1) ''near_price'' = Some np"
    using map_of_column_names by metis
  let ?F2 = "setitem ?F1 ''near_price'' (fillna (Fin 0) np)"
  have names2: "column_names ?F2 = column_names F"
    using setitem_names [OF np] names1 by simp
  from fill_medians_frame_total [OF columns_with_missing_names [of ?F2]] obtain G where
    "fill_medians_frame L ?F2 (columns_with_missing ?F2) = Inr G" "column_names G = column_names ?F2"
    by blast
  with fp np names2 show ?thesis
    by (simp add: impute_def getitem_def Let_def)
qed

lemma encode_total:
  assumes "''imbalance_buy_sell_flag'' \<in> set (column_names F)"
  shows "\<exists>E. encode L F = Inr E"
proof -
  from assms obtain c where "map_of (columns F) ''imbalance_buy_sell_flag'' = Some c"
    using map_of_column_names by blast
  then show ?thesis
    by (simp add: encode_def get_dummies_def)
qed

lemma data_preprocessing_False_total:
  assumes "''far_price'' \<in> set (column_names (objs s data))"
    "''near_price'' \<in> set (column_names (objs s data))"
    "''imbalance_buy_sell_flag'' \<in> set (column_names (objs s data))"
  shows "\<exists>Y s'. data_preprocessing L data False s = Inr (Y, s')"
proof -
  from impute_total [OF assms(1,2)] obtain G where
    G: "impute L (objs s data) = Inr G" and names: "column_names G = column_names (objs s data)"
    by blast
  from encode_total [of G L] assms(3) names obtain E where
    E: "encode L G = Inr E"
    by auto
  from G E show ?thesis
    unfolding data_preprocessing_def impute_def encode_def
    by (auto simp: prog_defs getitem_def fill_medians_run Let_def split: option.splits sum.splits)
qed

lemma data_preprocessing_True_total:
  assumes "''imbalance_buy_sell_flag'' \<in> set (column_names (objs s data))"
  shows "\<exists>Y s'. data_preprocessing L data True s = Inr (Y, s')"
proof -
  let ?T = "take_rows (notna_mask (objs s data)) (objs s data)"
  from encode_total [of ?T L] assms obtain E where E: "encode L ?T = Inr E"
    by (auto simp: column_names_take_rows)
  then show ?thesis
    unfolding data_preprocessing_def encode_def
    by (auto simp: prog_defs split: option.splits sum.splits)
qed

text \<open>
  The amended claim on a table of three rows with a missing value in \<^verbatim>\<open>far_price\<close>,
  \<^verbatim>\<open>near_price\<close> and \<^verbatim>\<open>wap\<close>: the first two get 0, \<^verbatim>\<open>wap\<close> gets its median 2,
  and nothing is missing in the returned table.
\<close>

theorem data_preprocessing_imputes_witness:
  "\<exists>Y s'. data_preprocessing exact_lib 0 False (store_of median_table) = Inr (Y, s') \<and>
     0 < fresh (store_of median_table) \<and>
     distinct (column_names (objs (store_of median_table) 0)) \<and>
     col_cells (objs (store_of median_table) 0) ''far_price'' = [NaN, Fin 2, NaN] \<and>
     col_cells (objs (store_of median_table) 0) ''near_price'' = [Fin 3, NaN, Fin 1] \<and>
     col_cells (objs (store_of median_table) 0) ''wap'' = [Fin 3, NaN, Fin 1] \<and>
     col_cells (objs s' Y) ''far_price'' = [Fin 0, Fin 2, Fin 0] \<and>
     col_cells (objs s' Y) ''near_price'' = [Fin 3, Fin 0, Fin 1] \<and>
     col_cells (objs s' Y) ''wap'' = [Fin 3, Fin 2, Fin 1] \<and>
     (\<forall>(n, c) \<in> set (columns (objs s' Y)). NaN \<notin> set (cells c))"
proof -
  let ?F = "objs (store_of median_table) 0"
  have names: "column_names ?F =
      [''far_price'', ''near_price'', ''wap'', ''imbalance_buy_sell_flag'']"
    by (simp add: column_names_def store_of_def median_table_def)
  obtain Y s' where run: "data_preprocessing exact_lib 0 False (store_of median_table) = Inr (Y, s')"
    using data_preprocessing_False_total [of "store_of median_table" 0 exact_lib]
    unfolding names by auto
  have alloc: "0 < fresh (store_of median_table)"
    by (simp add: store_of_def)
  have dist: "distinct (column_names ?F)"
    unfolding names by simp
  have inp: "col_cells ?F ''far_price'' = [NaN, Fin 2, NaN]"
    "col_cells ?F ''near_price'' = [Fin 3, NaN, Fin 1]"
    "col_cells ?F ''wap'' = [Fin 3, NaN, Fin 1]"
    by (simp_all add: col_cells_def store_of_def median_table_def)
  have wap: "median exact_lib [Fin 3, NaN, Fin 1] = Fin 2"
    by (simp add: median_def present_def isnull_def sort_cells_def exact_lib_def fl_exact_small)
  have med: "\<forall>(n, c) \<in> set (columns ?F).
      n \<noteq> ''far_price'' \<and> n \<noteq> ''near_price'' \<and> n \<noteq> ''imbalance_buy_sell_flag'' \<and>
      NaN \<in> set (cells c) \<longrightarrow> median exact_lib (cells c) \<noteq> NaN"
    by (simp add: store_of_def median_table_def wap)
  note imp = data_preprocessing_imputes [OF run alloc dist]
  from imp [THEN conjunct1] obtain ind where
    cols: "columns (objs s' Y) =
      map (\<lambda>(n, c). (rename_one ''imbalance_flag_-1'' ''imbalance_flag_neg_1'' n,
                      fillna (fill_value exact_lib n c) c))
          (filter (\<lambda>(n, c). n \<noteq> ''imbalance_buy_sell_flag'') (columns ?F)) @ ind"
    by blast
  have out: "col_cells (objs s' Y) ''far_price'' = [Fin 0, Fin 2, Fin 0]"
    "col_cells (objs s' Y) ''near_price'' = [Fin 3, Fin 0, Fin 1]"
    "col_cells (objs s' Y) ''wap'' = [Fin 3, Fin 2, Fin 1]"
    unfolding col_cells_def cols
    by (simp_all add: store_of_def median_table_def rename_one_def fill_value_def fillna_def
        fillna_cell_def isnull_def wap)
  from imp [THEN conjunct2] med have full: "\<forall>(n, c) \<in> set (columns (objs s' Y)). NaN \<notin> set (cells c)"
    by blast
  from run alloc dist inp out full show ?thesis
    by (intro exI conjI)
qed

subsection \<open>Names of categories\<close>

text \<open>The text of an integer is \<^verbatim>\<open>-1\<close> for \<open>-1\<close> only.\<close>

declare str_nat.simps [simp del]

lemma digit_cases:
  "d < 10 \<Longrightarrow> d = 0 \<or> d = 1 \<or> d = 2 \<or> d = 3 \<or> d = 4 \<or> d = 5 \<or> d = 6 \<or> d = 7 \<or> d = 8 \<or> d = (9::nat)"
  by arith

lemma digit_char_one: "d < 10 \<Longrightarrow> digit_char d = CHR ''1'' \<longleftrightarrow> d = 1"
  by (drule digit_cases) (auto simp: digit_char_def)

lemma digit_char_not_minus: "d < 10 \<Longrightarrow> digit_char d \<noteq> CHR ''-''"
  by (drule digit_cases) (auto simp: digit_char_def)

lemma str_nat_small: "n < 10 \<Longrightarrow> str_nat n = [digit_char n]"
  by (subst str_nat.simps) simp

lemma str_nat_big: "\<not> n < 10 \<Longrightarrow> str_nat n = str_nat (n div 10) @ [digit_char (n mod 10)]"
  by (subst str_nat.simps) simp

lemma str_nat_not_empty: "str_nat n \<noteq> []"
  by (cases "n < 10") (simp_all add: str_nat_small str_nat_big)

lemma str_nat_one: "str_nat n = ''1'' \<longleftrightarrow> n = 1"
proof (cases "n < 10")
  case True
  then show ?thesis by (simp add: str_nat_small digit_char_one)
next
  case False
  then have eq: "str_nat n = str_nat (n div 10) @ [digit_char (n mod 10)]"
    by (rule str_nat_big)
  obtain a as where front: "str_nat (n div 10) = a # as"
    using str_nat_not_empty [of "n div 10"] by (cases "str_nat (n div 10)") auto
  have "str_nat n \<noteq> ''1''"
    unfolding eq front by simp
  moreover have "n \<noteq> 1" using False by simp
  ultimately show ?thesis by simp
qed

lemma str_nat_hd: "hd (str_nat n) \<noteq> CHR ''-''"
proof (induction n rule: less_induct)
  case (less n)
  show ?case
  proof (cases "n < 10")
    case True
    then show ?thesis by (simp add: str_nat_small digit_char_not_minus)
  next
    case False
    then have eq: "str_nat n = str_nat (n div 10) @ [digit_char (n mod 10)]"
      by (rule str_nat_big)
    obtain a as where front: "str_nat (n div 10) = a # as"
      using str_nat_not_empty [of "n div 10"] by (cases "str_nat (n div 10)") auto
    from False have "n div 10 < n" by simp
    from less [OF this] have "a \<noteq> CHR ''-''"
      unfolding front by simp
    then show ?thesis
      unfolding eq front by simp
  qed
qed

lemma str_int_minus_one: "str_int k = ''-1'' \<longleftrightarrow> k = - 1"
proof (cases "k < 0")
  case True
  then have "str_int k = ''-1'' \<longleftrightarrow> nat (- k) = 1"
    by (simp add: str_int_def str_nat_one)
  with True show ?thesis by auto
next
  case False
  have "str_nat (nat k) \<noteq> ''-1''"
    using str_nat_hd [of "nat k"] by auto
  with False show ?thesis by (simp add: str_int_def)
qed

text \<open>The name of the indicator column of an integer category.\<close>

lemma rename_integer_label:
  "rename_one ''imbalance_flag_-1'' ''imbalance_flag_neg_1''
     (''imbalance_flag'' @ ''_'' @ level_label L Integer (Fin (of_int k))) =
   (if k = - 1 then ''imbalance_flag_neg_1'' else ''imbalance_flag_'' @ str_int k)"
  by (simp add: rename_one_def level_label_def str_int_minus_one)

lemma rename_never: "''imbalance_flag_-1'' \<notin> set (map (rename_one ''imbalance_flag_-1'' ''imbalance_flag_neg_1'') ns)"
  by (auto simp: rename_one_def)

text \<open>The categories of a column are its distinct non-missing values.\<close>

lemma distinct_insert_cell: "distinct (insert_cell x xs) \<longleftrightarrow> x \<notin> set xs \<and> distinct xs"
  by (induction xs) (auto simp: set_insert_cell)

lemma distinct_sort_cells: "distinct (sort_cells xs) \<longleftrightarrow> distinct xs"
  by (induction xs) (simp_all add: sort_cells_def distinct_insert_cell set_sort_cells [unfolded sort_cells_def])

lemma levels_distinct: "distinct (levels vs)"
  by (simp add: levels_def distinct_sort_cells)

lemma levels_set: "set (levels vs) = set vs - {NaN}"
  by (auto simp: levels_def set_sort_cells present_def isnull_def)

text \<open>Imputation leaves a column without a missing value, and every column name, as it was.\<close>

lemma fill_medians_frame_keeps:
  assumes "fill_medians_frame L F cs = Inr G" "map_of (columns F) n = Some c" "NaN \<notin> set (cells c)"
  shows "map_of (columns G) n = Some c"
  using assms
proof (induction cs arbitrary: F)
  case Nil
  then show ?case by simp
next
  case (Cons column rest)
  from Cons.prems(1) obtain d where d: "map_of (columns F) column = Some d"
    by (auto split: option.splits)
  let ?F = "setitem F column (fillna (median L (cells d)) d)"
  from Cons.prems(1) d have run: "fill_medians_frame L ?F rest = Inr G"
    by simp
  have "map_of (columns ?F) n = Some c"
  proof (cases "column = n")
    case True
    with d Cons.prems(2) have "d = c" by simp
    with True Cons.prems(3) show ?thesis
      by (simp add: setitem_def map_of_assign fillna_id)
  next
    case False
    with Cons.prems(2) show ?thesis
      by (simp add: setitem_def map_of_assign)
  qed
  from Cons.IH [OF run this Cons.prems(3)] show ?case .
qed

lemma impute_keeps:
  assumes run: "impute L F = Inr G" and n: "n \<noteq> ''far_price''" "n \<noteq> ''near_price''"
    and c: "map_of (columns F) n = Some c" "NaN \<notin> set (cells c)"
  shows "map_of (columns G) n = Some c"
proof -
  from run obtain fp where fp: "map_of (columns F) ''far_price'' = Some fp"
    by (auto simp: impute_def getitem_def split: option.splits)
  let ?F1 = "setitem F ''far_price'' (fillna (Fin 0) fp)"
  from run fp obtain np where np: "map_of (columns ?F1) ''near_price'' = Some np"
    by (auto simp: impute_def getitem_def Let_def split: option.splits)
  let ?F2 = "setitem ?F1 ''near_price'' (fillna (Fin 0) np)"
  from run fp np have loop: "fill_medians_frame L ?F2 (columns_with_missing ?F2) = Inr G"
    by (simp add: impute_def getitem_def Let_def)
  have "map_of (columns ?F2) n = Some c"
    using n c(1) by (simp add: setitem_def map_of_assign)
  from fill_medians_frame_keeps [OF loop this c(2)] show ?thesis .
qed

lemma impute_names:
  assumes run: "impute L F = Inr G"
  shows "column_names G = column_names F"
proof -
  from run obtain fp where fp: "map_of (columns F) ''far_price'' = Some fp"
    by (auto simp: impute_def getitem_def split: option.splits)
  let ?F1 = "setitem F ''far_price'' (fillna (Fin 0) fp)"
  from run fp obtain np where np: "map_of (columns ?F1) ''near_price'' = Some np"
    by (auto simp: impute_def getitem_def Let_def split: option.splits)
  let ?F2 = "setitem ?F1 ''near_price'' (fillna (Fin 0) np)"
  from run fp np have loop: "fill_medians_frame L ?F2 (columns_with_missing ?F2) = Inr G"
    by (simp add: impute_def getitem_def Let_def)
  from fill_medians_frame_total [where L = L, OF columns_with_missing_names [of ?F2]] loop
  have "column_names G = column_names ?F2"
    by auto
  also have "\<dots> = column_names F"
    using setitem_names [OF np] setitem_names [OF fp] by simp
  finally show ?thesis .
qed

lemma map_fst_filter: "map fst (filter (\<lambda>(n, d). P n) ps) = filter P (map fst ps)"
  by (induction ps) auto

lemma map_fst_rename: "map fst (map (\<lambda>(n, d). (r n, d)) ps) = map r (map fst ps)"
  by (induction ps) auto

lemma encode_names:
  assumes "encode L F = Inr E" "map_of (columns F) ''imbalance_buy_sell_flag'' = Some c"
  shows "column_names E =
           map (rename_one ''imbalance_flag_-1'' ''imbalance_flag_neg_1'')
             (filter (\<lambda>n. n \<noteq> ''imbalance_buy_sell_flag'') (column_names F)) @
           map (\<lambda>l. rename_one ''imbalance_flag_-1'' ''imbalance_flag_neg_1''
                      (''imbalance_flag'' @ ''_'' @ level_label L (dtype_of c) l))
               (levels (cells c))"
proof -
  from encode_Inr [OF assms(1)] assms(2) have
    "columns E =
       map (\<lambda>(n, d). (rename_one ''imbalance_flag_-1'' ''imbalance_flag_neg_1'' n, d))
           (filter (\<lambda>(n, d). n \<noteq> ''imbalance_buy_sell_flag'') (columns F)) @
       map (\<lambda>l. (rename_one ''imbalance_flag_-1'' ''imbalance_flag_neg_1''
                    (''imbalance_flag'' @ ''_'' @ level_label L (dtype_of c) l),
                  indicator (cells c) l))
           (levels (cells c))"
    by auto
  then show ?thesis
    unfolding column_names_def
    by (simp only: map_append map_fst_rename map_fst_filter) (simp add: comp_def)
qed

subsection \<open>Indicator columns\<close>

text \<open>
  Claim C3 as stated fails. A flag column that holds a missing value is a floating column,
  and its categories print as floats: with \<^verbatim>\<open>remove_missing\<close> the column of \<open>-1\<close> is
  named \<^verbatim>\<open>imbalance_flag_-1.0\<close>, which the renaming does not match, and without it the
  imputed median 0 gets an indicator column although 0 was never observed. In an integer
  flag column the categories of rows that \<^verbatim>\<open>remove_missing\<close> drops get no column: the
  value 1, observed in the dropped first row, has none.
\<close>

theorem data_preprocessing_indicator_names_counterexample:
  "col_cells names_counter_table ''imbalance_buy_sell_flag'' = [Fin 1, Fin (- 1), NaN] \<and>
   returned_names (data_preprocessing exact_lib 0 True) (store_of names_counter_table) =
     Some [''far_price'', ''near_price'', ''imbalance_flag_-1.0'', ''imbalance_flag_1.0''] \<and>
   returned_names (data_preprocessing exact_lib 0 False) (store_of names_counter_table) =
     Some [''far_price'', ''near_price'', ''imbalance_flag_-1.0'', ''imbalance_flag_0.0'',
           ''imbalance_flag_1.0''] \<and>
   col_cells names_dropped_table ''imbalance_buy_sell_flag'' = [Fin 1, Fin (- 1)] \<and>
   returned_names (data_preprocessing exact_lib 0 True) (store_of names_dropped_table) =
     Some [''far_price'', ''near_price'', ''imbalance_flag_neg_1'']"
  by code_simp

text \<open>
  Claim C3, amended. For every table held in an allocated object, when
  \<^verbatim>\<open>data_preprocessing\<close> returns (with either value of \<^verbatim>\<open>remove_missing\<close>): no
  column of the returned table is named \<^verbatim>\<open>imbalance_flag_-1\<close>; and if
  \<^verbatim>\<open>imbalance_buy_sell_flag\<close> is an integer column, the returned table has the
  other columns of the given one followed by exactly one indicator column per distinct
  value of the flag in the rows that are kept (all rows, or with \<^verbatim>\<open>remove_missing\<close>
  the rows without a missing value), in ascending order of the value, each named
  \<^verbatim>\<open>imbalance_flag_<value>\<close> and the one of \<open>-1\<close> named \<^verbatim>\<open>imbalance_flag_neg_1\<close>.
\<close>

theorem data_preprocessing_indicator_names:
  assumes run: "data_preprocessing L data remove_missing s = Inr (Y, s')"
    and alloc: "data < fresh s"
  shows "''imbalance_flag_-1'' \<notin> set (column_names (objs s' Y)) \<and>
         (map_of (columns (objs s data)) ''imbalance_buy_sell_flag'' = Some c \<and>
          dtype_of c = Integer \<and> (\<forall>v \<in> set (cells c). \<exists>k. v = Fin (of_int k))
          \<longrightarrow>
            column_names (objs s' Y) =
              map (rename_one ''imbalance_flag_-1'' ''imbalance_flag_neg_1'')
                (filter (\<lambda>n. n \<noteq> ''imbalance_buy_sell_flag'') (column_names (objs s data))) @
              map (\<lambda>v. spec_flag_name (cell_int v))
                (levels (if remove_missing then select (notna_mask (objs s data)) (cells c)
                         else cells c)) \<and>
            distinct (levels (if remove_missing then select (notna_mask (objs s data)) (cells c)
                              else cells c)) \<and>
            set (levels (if remove_missing then select (notna_mask (objs s data)) (cells c)
                         else cells c)) =
              set (if remove_missing then select (notna_mask (objs s data)) (cells c) else cells c))"
proof -
  let ?F = "objs s data"
  let ?flag = "''imbalance_buy_sell_flag''"
  let ?r = "rename_one ''imbalance_flag_-1'' ''imbalance_flag_neg_1''"
  let ?kept = "if remove_missing then select (notna_mask ?F) (cells c) else cells c"
  text \<open>The table that is encoded: the kept rows, or the imputed table.\<close>
  obtain H where enc: "encode L H = Inr (objs s' Y)"
    and names: "column_names H = column_names ?F"
    and flag: "map_of (columns ?F) ?flag = Some c \<Longrightarrow> NaN \<notin> set (cells c) \<Longrightarrow>
               map_of (columns H) ?flag = Some (Column (dtype_of c) ?kept)"
  proof (cases remove_missing)
    case True
    with run have "data_preprocessing L data True s = Inr (Y, s')"
      by simp
    from data_preprocessing_True_Inr [OF this]
    have "encode L (take_rows (notna_mask ?F) ?F) = Inr (objs s' Y)"
      by simp
    then show ?thesis
      using True
      by (intro that [of "take_rows (notna_mask ?F) ?F"])
         (simp_all add: column_names_take_rows map_of_take_rows)
  next
    case False
    with run have "data_preprocessing L data False s = Inr (Y, s')"
      by simp
    from data_preprocessing_False_Inr [OF this] alloc
    obtain G where G: "impute L ?F = Inr G" and E: "encode L G = Inr (objs s' Y)"
      by auto
    show ?thesis
    proof (intro that [of G])
      show "encode L G = Inr (objs s' Y)" by (rule E)
      show "column_names G = column_names ?F" using G by (rule impute_names)
      show "map_of (columns G) ?flag = Some (Column (dtype_of c) ?kept)"
        if "map_of (columns ?F) ?flag = Some c" "NaN \<notin> set (cells c)"
        using impute_keeps [OF G _ _ that] False by simp
    qed
  qed
  from encode_Inr [OF enc] obtain fc where fc: "map_of (columns H) ?flag = Some fc"
    by blast
  have never: "''imbalance_flag_-1'' \<notin> set (column_names (objs s' Y))"
    unfolding encode_names [OF enc fc] by (auto simp: rename_one_def)
  have int: "column_names (objs s' Y) =
        map ?r (filter (\<lambda>n. n \<noteq> ?flag) (column_names ?F)) @
        map (\<lambda>v. spec_flag_name (cell_int v)) (levels ?kept) \<and>
      distinct (levels ?kept) \<and> set (levels ?kept) = set ?kept"
    if c: "map_of (columns ?F) ?flag = Some c" and dt: "dtype_of c = Integer"
      and whole: "\<forall>v \<in> set (cells c). \<exists>k. v = Fin (of_int k)"
  proof -
    from whole have present: "NaN \<notin> set (cells c)"
      by auto
    have sub: "set ?kept \<subseteq> set (cells c)"
      using set_select [of "notna_mask ?F" "cells c"] by (cases remove_missing) simp_all
    have lab: "?r (''imbalance_flag'' @ ''_'' @ level_label L Integer l) =
        spec_flag_name (cell_int l)" if "l \<in> set (levels ?kept)" for l
    proof -
      from that sub have "l \<in> set (cells c)"
        by (auto simp: levels_set)
      with whole obtain k where l: "l = Fin (of_int k)"
        by auto
      then have k: "cell_int l = k"
        by (simp add: cell_int_def)
      have "?r (''imbalance_flag'' @ ''_'' @ level_label L Integer (Fin (of_int k))) =
          spec_flag_name k"
        unfolding spec_flag_name_def by (rule rename_integer_label)
      then show ?thesis
        unfolding k unfolding l .
    qed
    have "column_names (objs s' Y) =
        map ?r (filter (\<lambda>n. n \<noteq> ?flag) (column_names ?F)) @
        map (\<lambda>l. ?r (''imbalance_flag'' @ ''_'' @ level_label L Integer l)) (levels ?kept)"
      using encode_names [OF enc flag [OF c present]] by (simp add: names dt)
    also have "map (\<lambda>l. ?r (''imbalance_flag'' @ ''_'' @ level_label L Integer l)) (levels ?kept) =
        map (\<lambda>v. spec_flag_name (cell_int v)) (levels ?kept)"
      using lab by (intro map_cong refl)
    finally have 1: "column_names (objs s' Y) =
        map ?r (filter (\<lambda>n. n \<noteq> ?flag) (column_names ?F)) @
        map (\<lambda>v. spec_flag_name (cell_int v)) (levels ?kept)" .
    have 3: "set (levels ?kept) = set ?kept"
      using sub present by (auto simp: levels_set)
    from 1 levels_distinct 3 show ?thesis by blast
  qed
  from never int show ?thesis by blast
qed

text \<open>
  The amended claim on a table of three rows with the integer flags 1, \<open>-1\<close> and 0 and a
  missing value in the first row. Without \<^verbatim>\<open>remove_missing\<close> every row is kept and
  the indicator columns are those of \<open>-1\<close>, 0 and 1; with it the first row is dropped and
  only those of \<open>-1\<close> and 0 remain.
\<close>

theorem data_preprocessing_indicator_names_witness:
  "\<exists>Y s' Z t'.
     data_preprocessing exact_lib 0 False (store_of names_table) = Inr (Y, s') \<and>
     data_preprocessing exact_lib 0 True (store_of names_table) = Inr (Z, t') \<and>
     0 < fresh (store_of names_table) \<and>
     map_of (columns (objs (store_of names_table) 0)) ''imbalance_buy_sell_flag'' =
       Some (Column Integer [Fin 1, Fin (- 1), Fin 0]) \<and>
     (\<forall>v \<in> set [Fin 1, Fin (- 1), Fin 0]. \<exists>k. v = Fin (of_int k)) \<and>
     column_names (objs s' Y) =
       [''far_price'', ''near_price'', ''wap'', ''imbalance_flag_neg_1'', ''imbalance_flag_0'',
        ''imbalance_flag_1''] \<and>
     column_names (objs t' Z) =
       [''far_price'', ''near_price'', ''wap'', ''imbalance_flag_neg_1'', ''imbalance_flag_0''] \<and>
     ''imbalance_flag_-1'' \<notin> set (column_names (objs s' Y)) \<and>
     ''imbalance_flag_-1'' \<notin> set (column_names (objs t' Z))"
proof -
  let ?F = "objs (store_of names_table) 0"
  let ?c = "Column Integer [Fin 1, Fin (- 1), Fin 0]"
  have names: "column_names ?F = [''far_price'', ''near_price'', ''wap'', ''imbalance_buy_sell_flag'']"
    by (simp add: column_names_def store_of_def names_table_def)
  obtain Y s' where run: "data_preprocessing exact_lib 0 False (store_of names_table) = Inr (Y, s')"
    using data_preprocessing_False_total [of "store_of names_table" 0 exact_lib]
    unfolding names by auto
  obtain Z t' where run': "data_preprocessing exact_lib 0 True (store_of names_table) = Inr (Z, t')"
    using data_preprocessing_True_total [of "store_of names_table" 0 exact_lib]
    unfolding names by auto
  have alloc: "0 < fresh (store_of names_table)"
    by (simp add: store_of_def)
  have flag: "map_of (columns ?F) ''imbalance_buy_sell_flag'' = Some ?c"
    by (simp add: store_of_def names_table_def)
  have "Fin 1 = Fin (of_int 1)" "Fin (- 1) = Fin (of_int (- 1))" "Fin 0 = Fin (of_int 0)"
    by simp_all
  then have whole: "\<forall>v \<in> set [Fin 1, Fin (- 1), Fin 0]. \<exists>k. v = Fin (of_int k)"
    by (metis empty_iff empty_set set_ConsD)
  have all: "map (rename_one ''imbalance_flag_-1'' ''imbalance_flag_neg_1'')
        (filter (\<lambda>n. n \<noteq> ''imbalance_buy_sell_flag'')
           [''far_price'', ''near_price'', ''wap'', ''imbalance_buy_sell_flag'']) @
      map (\<lambda>v. spec_flag_name (cell_int v)) (levels [Fin 1, Fin (- 1), Fin 0]) =
      [''far_price'', ''near_price'', ''wap'', ''imbalance_flag_neg_1'', ''imbalance_flag_0'',
       ''imbalance_flag_1'']"
    by code_simp
  have kept: "select (notna_mask ?F) [Fin 1, Fin (- 1), Fin 0] = [Fin (- 1), Fin 0]"
    unfolding store_of_def names_table_def by code_simp
  have some: "map (rename_one ''imbalance_flag_-1'' ''imbalance_flag_neg_1'')
        (filter (\<lambda>n. n \<noteq> ''imbalance_buy_sell_flag'')
           [''far_price'', ''near_price'', ''wap'', ''imbalance_buy_sell_flag'']) @
      map (\<lambda>v. spec_flag_name (cell_int v)) (levels [Fin (- 1), Fin 0]) =
      [''far_price'', ''near_price'', ''wap'', ''imbalance_flag_neg_1'', ''imbalance_flag_0'']"
    by code_simp
  have pre: "map_of (columns ?F) ''imbalance_buy_sell_flag'' = Some ?c \<and> dtype_of ?c = Integer \<and>
      (\<forall>v \<in> set (cells ?c). \<exists>k. v = Fin (of_int k))"
    using flag whole by simp
  note a = data_preprocessing_indicator_names [OF run alloc, of ?c]
  note b = data_preprocessing_indicator_names [OF run' alloc, of ?c]
  have y: "column_names (objs s' Y) =
      [''far_price'', ''near_price'', ''wap'', ''imbalance_flag_neg_1'', ''imbalance_flag_0'',
       ''imbalance_flag_1'']"
    using a [THEN conjunct2, THEN mp, OF pre, THEN conjunct1]
    by (simp only: if_False column.sel names all)
  have z: "column_names (objs t' Z) =
      [''far_price'', ''near_price'', ''wap'', ''imbalance_flag_neg_1'', ''imbalance_flag_0'']"
    using b [THEN conjunct2, THEN mp, OF pre, THEN conjunct1]
    by (simp only: if_True column.sel names kept some)
  from run run' alloc flag whole y z a [THEN conjunct1] b [THEN conjunct1]
  show ?thesis
    by (intro exI conjI)
qed
end
